theory Spec2Isabelle
  imports Main "HOL-Library.Word" "HOL-Library.Sublist" "HOL-Library.Char_ord"
    "HOL-Library.List_Lexorder"
begin

unbundle bit_operations_syntax

section \<open>The worker driver of pachyderm: common types\<close>

text \<open>
  The theory embeds the functions of \<^verbatim>\<open>package driver\<close> (the worker driver and its mock,
  \<^verbatim>\<open>src/server/worker/driver/testing.go\<close>). Go's \<^verbatim>\<open>int\<close> and \<^verbatim>\<open>int64\<close> are 64-bit
  two's complement words (read with \<open>sint\<close>), \<^verbatim>\<open>int32\<close> and \<^verbatim>\<open>uint32\<close> are 32-bit words, \<^verbatim>\<open>uint64\<close> is an
  unsigned 64-bit word. A Go \<^verbatim>\<open>error\<close> value is \<open>go_error option\<close>, \<open>None\<close> being
  \<^verbatim>\<open>nil\<close>. Calls to the logger and to the Prometheus metrics change nothing the
  functions return and are left out.
\<close>

type_synonym go_int = "64 word"
type_synonym int64 = "64 word"
type_synonym int32 = "32 word"
type_synonym uint32 = "32 word"
type_synonym uint64 = "64 word"
type_synonym bytes = "8 word list"

text \<open>
  An error is either a plain error made by \<^verbatim>\<open>errors.New\<close> or \<^verbatim>\<open>fmt.Errorf\<close> (or by the
  operating system), known by its message, or an \<^verbatim>\<open>*exec.ExitError\<close>, which carries its
  message and, when \<^verbatim>\<open>Sys()\<close> is a \<^verbatim>\<open>syscall.WaitStatus\<close>, the exit status.
\<close>

datatype go_error =
    ErrorString string
  | ExitError string "go_int option"

fun Error :: "go_error \<Rightarrow> string" where
  "Error (ErrorString m) = m"
| "Error (ExitError m st) = m"

text \<open>\<^verbatim>\<open>fmt.Errorf(prefix + "%v", err)\<close>: a new plain error; the wrapped error is only
  kept as text.\<close>

definition Errorf :: "string \<Rightarrow> go_error \<Rightarrow> go_error" where
  "Errorf pre e = ErrorString (pre @ Error e)"

text \<open>What a call does: it returns, it panics (an index out of range), or it ends the
  process through \<^verbatim>\<open>log.Fatal\<close>.\<close>

datatype 'a outcome = Returns 'a | Panics string | Fatal go_error

text \<open>\<^verbatim>\<open>strings.Contains\<close> and \<^verbatim>\<open>strings.HasPrefix\<close>.\<close>

fun Contains :: "string \<Rightarrow> string \<Rightarrow> bool" where
  "Contains [] sub = (sub = [])"
| "Contains (c # s) sub = (prefix sub (c # s) \<or> Contains s sub)"

definition HasPrefix :: "string \<Rightarrow> string \<Rightarrow> bool" where
  "HasPrefix s pre = prefix pre s"

subsection \<open>The pipeline and the driver\<close>

text \<open>The fields of \<^verbatim>\<open>pps.Transform\<close> and \<^verbatim>\<open>pps.PipelineInfo\<close> that the driver reads.
  \<^verbatim>\<open>Stdin\<close> and \<^verbatim>\<open>ErrStdin\<close> are \<open>None\<close> for a nil slice.\<close>

record Transform =
  Cmd :: "string list"
  ErrCmd :: "string list"
  Stdin :: "string list option"
  ErrStdin :: "string list option"
  AcceptReturnCode :: "int64 list"
  WorkingDir :: string
  User :: string

record PipelineInfo =
  transform :: Transform
  Spout :: bool
  ID :: string
  PipelineName :: string

record driver =
  pipelineInfo :: PipelineInfo
  uid :: "uint32 option"
  gid :: "uint32 option"
  exportStats :: bool
  inputDir :: string

section \<open>The mock driver\<close>

record MockOptions =
  NumWorkers :: go_int
  EtcdPrefix :: string

record MockDriver =
  options :: MockOptions

text \<open>\<^verbatim>\<open>NewMockDriver\<close> copies the caller's options and replaces a \<^verbatim>\<open>NumWorkers\<close> of 0
  by 1. The etcd client and the context are not read by \<^verbatim>\<open>GetExpectedNumWorkers\<close>.\<close>

definition NewMockDriver :: "MockOptions \<Rightarrow> MockDriver" where
  "NewMockDriver userOptions =
     (let options = userOptions;
          options = (if NumWorkers options = 0 then options\<lparr>NumWorkers := 1\<rparr> else options)
      in \<lparr>options = options\<rparr>)"

definition GetExpectedNumWorkers :: "MockDriver \<Rightarrow> go_int \<times> go_error option" where
  "GetExpectedNumWorkers md = (NumWorkers (options md), None)"

section \<open>Running user code\<close>

text \<open>
  What the world answers during one run of the user's command: the parse of the datum
  timeout, \<^verbatim>\<open>cmd.Start\<close>, \<^verbatim>\<open>cmd.Process.Wait\<close>, whether the context is done and its
  error, and the error of \<^verbatim>\<open>cmd.WaitIO\<close> (package \<^verbatim>\<open>exec\<close> is a fork of the standard
  library that is not part of these sources, so its result is a parameter).
\<close>

record proc_env =
  DurationFromProto :: "go_error option"
  Start :: "go_error option"
  Wait :: "go_error option"
  IsDone :: bool
  CtxErr :: "go_error option"
  WaitIO :: "go_error option"

text \<open>The loop over \<^verbatim>\<open>AcceptReturnCode\<close>: is some accepted code equal to the exit status?\<close>

fun accepted :: "int64 list \<Rightarrow> go_int \<Rightarrow> bool" where
  "accepted [] status = False"
| "accepted (returnCode # rest) status = (if returnCode = status then True else accepted rest status)"

text \<open>The tail shared by both runners, from \<^verbatim>\<open>cmd.Start\<close> on.\<close>

definition run_cmd :: "int64 list \<Rightarrow> proc_env \<Rightarrow> go_error option" where
  "run_cmd acceptReturnCode env =
     (case Start env of
        Some err \<Rightarrow> Some (Errorf ''error cmd.Start: '' err)
      | None \<Rightarrow>
     (case Wait env of
        Some err \<Rightarrow> Some (Errorf ''error cmd.Wait: '' err)
      | None \<Rightarrow>
     (if IsDone env \<and> CtxErr env \<noteq> None then CtxErr env
      else
     (case WaitIO env of
        None \<Rightarrow> None
      | Some err \<Rightarrow>
          if \<not> Contains (Error err) ''broken pipe'' then
            (case err of
               ExitError m (Some status) \<Rightarrow>
                 if accepted acceptReturnCode status then None
                 else Some (Errorf ''error cmd.WaitIO: '' err)
             | _ \<Rightarrow> Some (Errorf ''error cmd.WaitIO: '' err))
          else None))))"

text \<open>\<^verbatim>\<open>RunUserCode\<close>; \<open>rawDatumTimeout\<close> says whether a timeout was given.\<close>

definition RunUserCode :: "driver \<Rightarrow> proc_env \<Rightarrow> bool \<Rightarrow> go_error option" where
  "RunUserCode d env rawDatumTimeout =
     (if rawDatumTimeout \<and> DurationFromProto env \<noteq> None then DurationFromProto env
      else if length (Cmd (transform (pipelineInfo d))) = 0 then
        Some (ErrorString ''invalid pipeline transform, no command specified'')
      else run_cmd (AcceptReturnCode (transform (pipelineInfo d))) env)"

text \<open>\<^verbatim>\<open>RunUserErrorHandlingCode\<close> reads \<^verbatim>\<open>ErrCmd[0]\<close> with no check of the length, and
  does not look at the timeout.\<close>

definition RunUserErrorHandlingCode ::
  "driver \<Rightarrow> proc_env \<Rightarrow> bool \<Rightarrow> go_error option outcome" where
  "RunUserErrorHandlingCode d env rawDatumTimeout =
     (case ErrCmd (transform (pipelineInfo d)) of
        [] \<Rightarrow> Panics ''runtime error: index out of range''
      | c # args \<Rightarrow> Returns (run_cmd (AcceptReturnCode (transform (pipelineInfo d))) env))"

text \<open>The error \<^verbatim>\<open>WaitIO\<close> reports for a process that ran to its exit: none for status 0,
  an \<^verbatim>\<open>ExitError\<close> holding the status otherwise.\<close>

definition exit_error :: "string \<Rightarrow> go_int \<Rightarrow> go_error option" where
  "exit_error msg status = (if status = 0 then None else Some (ExitError msg (Some status)))"

text \<open>An example pipeline and an example run.\<close>

definition example_transform :: Transform where
  "example_transform =
     \<lparr>Cmd = [''sh'', ''-c'', ''true''], ErrCmd = [], Stdin = None, ErrStdin = None,
      AcceptReturnCode = [42], WorkingDir = ''/'', User = ''''\<rparr>"

definition example_driver :: driver where
  "example_driver =
     \<lparr>pipelineInfo = \<lparr>transform = example_transform, Spout = False, ID = ''id'',
        PipelineName = ''p''\<rparr>,
      uid = None, gid = None, exportStats = False, inputDir = ''/pfs''\<rparr>"

definition exited :: "string \<Rightarrow> go_int \<Rightarrow> proc_env" where
  "exited msg status =
     \<lparr>DurationFromProto = None, Start = None, Wait = None, IsDone = False, CtxErr = None,
      WaitIO = exit_error msg status\<rparr>"

section \<open>Jobs and pipelines in the coordination store\<close>

text \<open>
  The fields of \<^verbatim>\<open>pps.EtcdJobInfo\<close> and \<^verbatim>\<open>pps.EtcdPipelineInfo\<close> that \<^verbatim>\<open>DeleteJob\<close> reads.
  A job state is the \<^verbatim>\<open>int32\<close> of the \<^verbatim>\<open>pps.JobState\<close> enum. \<^verbatim>\<open>JobCounts\<close> is a Go
  \<^verbatim>\<open>map[int32]int32\<close>: \<open>None\<close> is the nil map, and reading a missing key gives 0.
\<close>

record EtcdJobInfo =
  JobID :: string
  JobPipeline :: string
  State :: int32

record EtcdPipelineInfo =
  JobCounts :: "(int32 \<rightharpoonup> int32) option"

definition index_map :: "(int32 \<rightharpoonup> int32) \<Rightarrow> int32 \<Rightarrow> int32" where
  "index_map m k = (case m k of None \<Rightarrow> 0 | Some v \<Rightarrow> v)"

definition JobCount :: "EtcdPipelineInfo \<Rightarrow> int32 \<Rightarrow> int32" where
  "JobCount p k = (case JobCounts p of None \<Rightarrow> 0 | Some m \<Rightarrow> index_map m k)"

text \<open>What a transaction sees: the pipelines and the jobs collections.\<close>

record stm =
  pipelines :: "string \<rightharpoonup> EtcdPipelineInfo"
  jobs :: "string \<rightharpoonup> EtcdJobInfo"

definition ErrNotFound :: "string \<Rightarrow> go_error" where
  "ErrNotFound key = ErrorString (key @ '' not found'')"

text \<open>
  Modelled from the spec: the collection package (\<^verbatim>\<open>col\<close>) is not part of these sources.
  \<^verbatim>\<open>Update(key, val, f)\<close> reads the entry at \<open>key\<close> into \<open>val\<close> (an error when there
  is none), runs \<open>f\<close> on it and writes the result back; \<^verbatim>\<open>Delete(key)\<close> removes the entry
  (an error when there is none).
\<close>

definition Update ::
  "stm \<Rightarrow> string \<Rightarrow> (EtcdPipelineInfo \<Rightarrow> go_error + EtcdPipelineInfo) \<Rightarrow> go_error option \<times> stm" where
  "Update s key f =
     (case pipelines s key of
        None \<Rightarrow> (Some (ErrNotFound key), s)
      | Some val \<Rightarrow>
          (case f val of
             Inl err \<Rightarrow> (Some err, s)
           | Inr val' \<Rightarrow> (None, s\<lparr>pipelines := (pipelines s)(key \<mapsto> val')\<rparr>)))"

definition Delete :: "stm \<Rightarrow> string \<Rightarrow> go_error option \<times> stm" where
  "Delete s key =
     (case jobs s key of
        None \<Rightarrow> (Some (ErrNotFound key), s)
      | Some j \<Rightarrow> (None, s\<lparr>jobs := (jobs s)(key := None)\<rparr>))"

text \<open>The function \<^verbatim>\<open>DeleteJob\<close> passes to \<^verbatim>\<open>Update\<close>: make the map if it is nil, and
  decrement the count of the job's state unless it is 0.\<close>

definition decrement_count :: "int32 \<Rightarrow> EtcdPipelineInfo \<Rightarrow> go_error + EtcdPipelineInfo" where
  "decrement_count state pipelinePtr =
     (let m = (case JobCounts pipelinePtr of None \<Rightarrow> Map.empty | Some m \<Rightarrow> m);
          m = (if index_map m state \<noteq> 0 then m(state \<mapsto> index_map m state - 1) else m)
      in Inr (pipelinePtr\<lparr>JobCounts := Some m\<rparr>))"

definition DeleteJob :: "stm \<Rightarrow> EtcdJobInfo \<Rightarrow> go_error option \<times> stm" where
  "DeleteJob s jobPtr =
     (case Update s (JobPipeline jobPtr) (decrement_count (State jobPtr)) of
        (Some err, s') \<Rightarrow> (Some err, s')
      | (None, s') \<Rightarrow> Delete s' (JobID jobPtr))"

definition example_stm :: stm where
  "example_stm =
     \<lparr>pipelines = [''p'' \<mapsto> \<lparr>JobCounts = Some [1 \<mapsto> 2, 3 \<mapsto> 0]\<rparr>],
      jobs = [''j1'' \<mapsto> \<lparr>JobID = ''j1'', JobPipeline = ''p'', State = 1\<rparr>,
              ''j2'' \<mapsto> \<lparr>JobID = ''j2'', JobPipeline = ''p'', State = 3\<rparr>]\<rparr>"

section \<open>Resolving the user of the pipeline\<close>

text \<open>\<^verbatim>\<open>strings.Split(s, sep)\<close> for a separator of one character: the pieces between the
  separators, so always at least one piece.\<close>

fun Split :: "string \<Rightarrow> char \<Rightarrow> string list" where
  "Split [] sep = [[]]"
| "Split (c # s) sep =
     (if c = sep then [] # Split s sep
      else (case Split s sep of [] \<Rightarrow> [[c]] | piece # pieces \<Rightarrow> (c # piece) # pieces))"

text \<open>\<^verbatim>\<open>parts[i]\<close>: \<open>None\<close> when the index is out of range, where Go panics.\<close>

definition index :: "'a list \<Rightarrow> nat \<Rightarrow> 'a option" where
  "index xs i = (if i < length xs then Some (xs ! i) else None)"

definition index_panic :: "'b outcome" where
  "index_panic = Panics ''runtime error: index out of range''"

text \<open>\<^verbatim>\<open>user.User\<close> and \<^verbatim>\<open>user.Group\<close> (the fields the two lookups set).\<close>

record os_user =
  Username :: string
  Uid :: string
  Gid :: string
  Name :: string
  HomeDir :: string

record os_group =
  GroupGid :: string
  GroupName :: string

text \<open>A text file as the lookups see it: the error of \<^verbatim>\<open>os.Open\<close>, the lines the scanner
  yields, the error the scanner ends with, and the error of \<^verbatim>\<open>Close\<close>.\<close>

record text_file =
  OpenErr :: "go_error option"
  Lines :: "string list"
  ScanErr :: "go_error option"
  CloseErr :: "go_error option"

record etc_files =
  passwd :: text_file
  groupFile :: text_file

text \<open>The deferred \<^verbatim>\<open>Close\<close>: its error becomes the returned error when there is none
  yet.\<close>

fun deferred_close :: "text_file \<Rightarrow> ('a option \<times> go_error option) outcome
    \<Rightarrow> ('a option \<times> go_error option) outcome" where
  "deferred_close f (Returns (r, retErr)) =
     Returns (r, if CloseErr f \<noteq> None \<and> retErr = None then CloseErr f else retErr)"
| "deferred_close f other = other"

fun scan_group :: "string \<Rightarrow> string list \<Rightarrow> (os_group option \<times> go_error option) outcome" where
  "scan_group grp [] = Returns (None, Some (ErrorString (''group '' @ grp @ '' not found'')))"
| "scan_group grp (line # rest) =
     (let parts = Split line CHR '':'' in
      if index parts 0 = Some grp then
        (case index parts 2 of
           None \<Rightarrow> index_panic
         | Some g \<Rightarrow> Returns (Some \<lparr>GroupGid = g, GroupName = grp\<rparr>, None))
      else scan_group grp rest)"

definition lookupGroup :: "text_file \<Rightarrow> string \<Rightarrow> (os_group option \<times> go_error option) outcome" where
  "lookupGroup f grp =
     (case OpenErr f of
        Some err \<Rightarrow> Returns (None, Some err)
      | None \<Rightarrow> deferred_close f (scan_group grp (Lines f)))"

text \<open>The body run for the first line of \<^verbatim>\<open>/etc/passwd\<close> that matches.\<close>

definition matched_line ::
  "etc_files \<Rightarrow> string \<Rightarrow> string \<Rightarrow> string list \<Rightarrow> (os_user option \<times> go_error option) outcome" where
  "matched_line etc userOrUID groupOrGID parts =
     (case (index parts 0, index parts 2, index parts 3, index parts 4, index parts 5) of
        (Some p0, Some p2, Some p3, Some p4, Some p5) \<Rightarrow>
          (let result = \<lparr>Username = p0, Uid = p2, Gid = p3, Name = p4, HomeDir = p5\<rparr> in
           if groupOrGID \<noteq> [] then
             if p0 = userOrUID then
               (case lookupGroup (groupFile etc) groupOrGID of
                  Returns (Some grp, None) \<Rightarrow> Returns (Some (result\<lparr>Gid := GroupGid grp\<rparr>), None)
                | Returns (None, None) \<Rightarrow> Panics ''nil pointer dereference''
                | Returns (g, Some err) \<Rightarrow> Returns (None, Some err)
                | Panics m \<Rightarrow> Panics m
                | Fatal err \<Rightarrow> Fatal err)
             else Returns (Some (result\<lparr>Gid := groupOrGID\<rparr>), None)
           else Returns (Some result, None))
      | _ \<Rightarrow> index_panic)"

fun scan_passwd ::
  "etc_files \<Rightarrow> string \<Rightarrow> string \<Rightarrow> string \<Rightarrow> string list
     \<Rightarrow> (os_user option \<times> go_error option) outcome" where
  "scan_passwd etc userArg userOrUID groupOrGID [] =
     (case ScanErr (passwd etc) of
        Some err \<Rightarrow> Fatal err
      | None \<Rightarrow> Returns (None, Some (ErrorString (''user '' @ userArg @ '' not found''))))"
| "scan_passwd etc userArg userOrUID groupOrGID (line # rest) =
     (let parts = Split line CHR '':'' in
      if index parts 0 = Some userOrUID then matched_line etc userOrUID groupOrGID parts
      else
        (case index parts 2 of
           None \<Rightarrow> index_panic
         | Some p2 \<Rightarrow>
             if p2 = userOrUID then matched_line etc userOrUID groupOrGID parts
             else scan_passwd etc userArg userOrUID groupOrGID rest))"

definition lookupDockerUser ::
  "etc_files \<Rightarrow> string \<Rightarrow> (os_user option \<times> go_error option) outcome" where
  "lookupDockerUser etc userArg =
     (let userParts = Split userArg CHR '':'';
          userOrUID = hd userParts;
          groupOrGID = (if length userParts > 1 then userParts ! 1 else '''')
      in case OpenErr (passwd etc) of
           Some err \<Rightarrow> Returns (None, Some err)
         | None \<Rightarrow>
             deferred_close (passwd etc)
               (scan_passwd etc userArg userOrUID groupOrGID (Lines (passwd etc))))"

text \<open>A line the scan of \<^verbatim>\<open>/etc/passwd\<close> passes over: it has a third field, and neither
  its first nor its third field is the user asked for.\<close>

definition passes_over :: "string \<Rightarrow> string \<Rightarrow> bool" where
  "passes_over userOrUID line =
     (let parts = Split line CHR '':'' in
      index parts 0 \<noteq> Some userOrUID
      \<and> (case index parts 2 of None \<Rightarrow> False | Some p2 \<Rightarrow> p2 \<noteq> userOrUID))"

definition example_etc :: etc_files where
  "example_etc =
     \<lparr>passwd = \<lparr>OpenErr = None,
         Lines = [''root:x:0:0:root:/root:/bin/sh'',
                  ''alice:x:1000:1000:Alice:/home/alice:/bin/sh''],
         ScanErr = None, CloseErr = None\<rparr>,
      groupFile = \<lparr>OpenErr = None,
         Lines = [''root:x:0:'', ''staff:x:50:alice''],
         ScanErr = None, CloseErr = None\<rparr>\<rparr>"

section \<open>The file system and the world around the driver\<close>

text \<open>
  The file system is a list of the paths that exist, each with its kind and its owner.
  Paths are absolute and clean (no \<^verbatim>\<open>.\<close>, \<^verbatim>\<open>..\<close> or doubled separators). The world also
  keeps the order of the calls to the puller's \<^verbatim>\<open>CleanUp\<close>, to \<^verbatim>\<open>os.RemoveAll\<close> and to
  the callback of \<^verbatim>\<open>WithData\<close>.
\<close>

datatype file_kind = Directory | Regular | NamedPipe | Symlink string

record file_meta =
  kind :: file_kind
  owner :: "uint32 \<times> uint32"

type_synonym file_system = "(string \<times> file_meta) list"

datatype call = PullerCleanUp | OsRemoveAll string | UserCallback

record world =
  files :: file_system
  calls :: "call list"

text \<open>The fields of \<^verbatim>\<open>common.Input\<close> the driver reads (\<^verbatim>\<open>FilePath\<close>, \<^verbatim>\<open>RepoName\<close> and
  \<^verbatim>\<open>CommitID\<close> are those of \<^verbatim>\<open>FileInfo.File\<close>).\<close>

record Input =
  InputName :: string
  GitURL :: string
  FilePath :: string
  RepoName :: string
  CommitID :: string
  Lazy :: bool
  EmptyFiles :: bool

text \<open>\<^verbatim>\<open>github.PushPayload\<close>: the three fields \<^verbatim>\<open>downloadGitData\<close> reads.\<close>

record PushPayload =
  CloneURL :: string
  Ref :: string
  After :: string

text \<open>
  The constants of package \<^verbatim>\<open>client\<close> and the answers of the operating system, of the
  puller and of git, none of which is in these sources: the scratch-space name, the fresh
  id of \<^verbatim>\<open>uuid.NewWithoutDashes\<close>, the owner of the files the worker creates, the error
  (if any) of each system call on each path, what \<^verbatim>\<open>puller.Pull\<close> and the git clone put on
  disk, and what the n-th call of \<^verbatim>\<open>puller.CleanUp\<close> returns.
\<close>

record os_env =
  PPSScratchSpace :: string
  NewWithoutDashes :: string
  procOwner :: "uint32 \<times> uint32"
  MkdirAllErr :: "string \<Rightarrow> go_error option"
  MkfifoErr :: "string \<Rightarrow> go_error option"
  SymlinkErr :: "string \<Rightarrow> go_error option"
  ReadDirErr :: "string \<Rightarrow> go_error option"
  RemoveAllErr :: "string \<Rightarrow> go_error option"
  LstatErr :: "string \<Rightarrow> go_error option"
  ChownErr :: "string \<Rightarrow> go_error option"
  Pull :: "Input \<Rightarrow> string \<Rightarrow> file_system \<Rightarrow> go_error option \<times> file_system"
  CleanUp :: "nat \<Rightarrow> int64 \<times> go_error option"
  GetFile :: "Input \<Rightarrow> go_error + bytes"
  Unmarshal :: "bytes \<Rightarrow> go_error + PushPayload"
  PlainClone :: "string \<Rightarrow> PushPayload \<Rightarrow> file_system \<Rightarrow> go_error option \<times> file_system"
  WorktreeErr :: "Input \<Rightarrow> go_error option"
  CheckoutErr :: "Input \<Rightarrow> go_error option"
  ResolveRevision :: "Input \<Rightarrow> go_error + string"

text \<open>\<^verbatim>\<open>filepath.Join\<close> on clean elements: empty elements are dropped, the others are
  joined by the separator.\<close>

definition Join :: "string list \<Rightarrow> string" where
  "Join elems =
     (case filter (\<lambda>e. e \<noteq> []) elems of
        [] \<Rightarrow> []
      | e # es \<Rightarrow> foldl (\<lambda>a b. a @ ''/'' @ b) e es)"

text \<open>\<open>under p q\<close>: the path \<open>q\<close> is \<open>p\<close> or lies below \<open>p\<close>.\<close>

definition under :: "string \<Rightarrow> string \<Rightarrow> bool" where
  "under p q = (q = p \<or> prefix (p @ ''/'') q)"

text \<open>\<^verbatim>\<open>os.RemoveAll\<close>: nothing happens for the empty path (and no error); otherwise the path
  and all below it are removed, unless the system reports an error.\<close>

definition RemoveAll :: "os_env \<Rightarrow> string \<Rightarrow> world \<Rightarrow> go_error option \<times> world" where
  "RemoveAll env path w =
     (let w = w\<lparr>calls := calls w @ [OsRemoveAll path]\<rparr> in
      if path = [] then (None, w)
      else
        (case RemoveAllErr env path of
           Some err \<Rightarrow> (Some err, w)
         | None \<Rightarrow> (None, w\<lparr>files := filter (\<lambda>(q, m). \<not> under path q) (files w)\<rparr>)))"

text \<open>The path and the directories above it, outermost first.\<close>

definition parents :: "string \<Rightarrow> string list" where
  "parents p = [take i p. i \<leftarrow> [1..<length p], p ! i = CHR ''/''] @ [p]"

text \<open>\<^verbatim>\<open>os.MkdirAll\<close>: creates the directory and the missing directories above it.\<close>

definition MkdirAll :: "os_env \<Rightarrow> string \<Rightarrow> world \<Rightarrow> go_error option \<times> world" where
  "MkdirAll env path w =
     (case MkdirAllErr env path of
        Some err \<Rightarrow> (Some err, w)
      | None \<Rightarrow>
          (None, w\<lparr>files := files w @
             [(q, \<lparr>kind = Directory, owner = procOwner env\<rparr>).
                q \<leftarrow> parents path, map_of (files w) q = None]\<rparr>))"

text \<open>Modelled from the spec: \<^verbatim>\<open>createSpoutFifo\<close> is not part of these sources; for a
  spout, \<open>out\<close> is created as a FIFO.\<close>

definition createSpoutFifo :: "os_env \<Rightarrow> string \<Rightarrow> world \<Rightarrow> go_error option \<times> world" where
  "createSpoutFifo env path w =
     (case MkfifoErr env path of
        Some err \<Rightarrow> (Some err, w)
      | None \<Rightarrow> (None, w\<lparr>files := files w @ [(path, \<lparr>kind = NamedPipe, owner = procOwner env\<rparr>)]\<rparr>))"

text \<open>\<^verbatim>\<open>os.Symlink(oldname, newname)\<close>.\<close>

definition Symlink_at :: "os_env \<Rightarrow> string \<Rightarrow> string \<Rightarrow> world \<Rightarrow> go_error option \<times> world" where
  "Symlink_at env oldname newname w =
     (case SymlinkErr env newname of
        Some err \<Rightarrow> (Some err, w)
      | None \<Rightarrow>
          (None, w\<lparr>files := files w @ [(newname, \<lparr>kind = Symlink oldname, owner = procOwner env\<rparr>)]\<rparr>))"

text \<open>The name of \<open>q\<close> as an entry of the directory \<open>dir\<close>, when it is one.\<close>

definition child_name :: "string \<Rightarrow> string \<Rightarrow> string option" where
  "child_name dir q =
     (if prefix (dir @ ''/'') q then
        (let n = drop (length dir + 1) q in
         if n \<noteq> [] \<and> CHR ''/'' \<notin> set n then Some n else None)
      else None)"

text \<open>\<^verbatim>\<open>ioutil.ReadDir\<close>: the names of the entries of the directory, sorted; opening the
  empty path fails.\<close>

definition ReadDir :: "os_env \<Rightarrow> string \<Rightarrow> world \<Rightarrow> go_error + string list" where
  "ReadDir env dir w =
     (if dir = [] then Inl (ErrorString ''open : no such file or directory'')
      else
        (case ReadDirErr env dir of
           Some err \<Rightarrow> Inl err
         | None \<Rightarrow> Inr (sort (List.map_filter (child_name dir) (map fst (files w))))))"

text \<open>\<^verbatim>\<open>filepath.Walk\<close>: the paths at and below the root, in the order of the walk (names
  sorted in each directory), each with the error of its \<^verbatim>\<open>Lstat\<close>; a root that does not
  exist is visited once, with an error.\<close>

definition Walk :: "os_env \<Rightarrow> string \<Rightarrow> world \<Rightarrow> (string \<times> go_error option) list" where
  "Walk env root w =
     (if map_of (files w) root = None then
        [(root, Some (case LstatErr env root of
                        Some err \<Rightarrow> err
                      | None \<Rightarrow> ErrorString ''lstat: no such file or directory''))]
      else
        map (\<lambda>q. (q, LstatErr env q))
          (sort_key (\<lambda>q. Split q CHR ''/'') (filter (under root) (map fst (files w)))))"

text \<open>\<^verbatim>\<open>os.Chown\<close>. The model keeps one owner for each path; a symlink is not followed
  (the system changes the owner of its target).\<close>

definition Chown :: "os_env \<Rightarrow> string \<Rightarrow> uint32 \<Rightarrow> uint32 \<Rightarrow> world \<Rightarrow> go_error option \<times> world" where
  "Chown env name u g w =
     (case ChownErr env name of
        Some err \<Rightarrow> (Some err, w)
      | None \<Rightarrow>
          (None, w\<lparr>files := map (\<lambda>(q, m). if q = name then (q, m\<lparr>owner := (u, g)\<rparr>) else (q, m))
                               (files w)\<rparr>))"

subsection \<open>Unlinking the inputs\<close>

fun unlink_entries :: "driver \<Rightarrow> os_env \<Rightarrow> string list \<Rightarrow> world \<Rightarrow> go_error option \<times> world" where
  "unlink_entries d env [] w = (None, w)"
| "unlink_entries d env (entry # entries) w =
     (if entry = PPSScratchSpace env then unlink_entries d env entries w
      else
        (case RemoveAll env (Join [inputDir d, entry]) w of
           (Some err, w') \<Rightarrow> (Some err, w')
         | (None, w') \<Rightarrow> unlink_entries d env entries w'))"

definition unlinkData :: "driver \<Rightarrow> os_env \<Rightarrow> Input list \<Rightarrow> world \<Rightarrow> go_error option \<times> world" where
  "unlinkData d env inputs w =
     (case ReadDir env (inputDir d) w of
        Inl err \<Rightarrow> (Some (Errorf ''ioutil.ReadDir: '' err), w)
      | Inr entries \<Rightarrow> unlink_entries d env entries w)"

subsection \<open>Downloading the inputs\<close>

text \<open>\<^verbatim>\<open>downloadGitData\<close>: the payload is fetched and parsed, its three fields are checked,
  the ref is cloned into \<open>scratchPath/input.Name\<close>, the SHA is checked out, and \<open>HEAD\<close> must
  then be that SHA.\<close>

definition downloadGitData :: "os_env \<Rightarrow> string \<Rightarrow> Input \<Rightarrow> world \<Rightarrow> go_error option \<times> world" where
  "downloadGitData env scratchPath input w =
     (case GetFile env input of
        Inl err \<Rightarrow> (Some err, w)
      | Inr rawJSON \<Rightarrow>
     (case Unmarshal env rawJSON of
        Inl err \<Rightarrow> (Some err, w)
      | Inr payload \<Rightarrow>
          if CloneURL payload = [] then
            (Some (ErrorString ''Git hook payload does not specify the upstream URL''), w)
          else if Ref payload = [] then
            (Some (ErrorString ''Git hook payload does not specify the updated ref''), w)
          else if After payload = [] then
            (Some (ErrorString ''Git hook payload does not specify the commit SHA''), w)
          else
            (case PlainClone env (Join [scratchPath, InputName input]) payload (files w) of
               (Some err, fs) \<Rightarrow>
                 (Some (ErrorString (''error fetching repo '' @ InputName input @ '' with ref ''
                    @ Ref payload @ '' from URL '' @ CloneURL payload @ '': '' @ Error err)),
                  w\<lparr>files := fs\<rparr>)
             | (None, fs) \<Rightarrow>
            (case WorktreeErr env input of
               Some err \<Rightarrow> (Some err, w\<lparr>files := fs\<rparr>)
             | None \<Rightarrow>
            (case CheckoutErr env input of
               Some err \<Rightarrow>
                 (Some (ErrorString (''error checking out SHA '' @ After payload @ '' for repo ''
                    @ InputName input @ '': '' @ Error err)), w\<lparr>files := fs\<rparr>)
             | None \<Rightarrow>
            (case ResolveRevision env input of
               Inl err \<Rightarrow>
                 (Some (ErrorString (''failed to inspect HEAD SHA for repo '' @ InputName input
                    @ '': '' @ Error err)), w\<lparr>files := fs\<rparr>)
             | Inr head \<Rightarrow>
                 if head \<noteq> After payload then
                   (Some (ErrorString (''could not find SHA '' @ After payload @ '' for repo ''
                      @ InputName input)), w\<lparr>files := fs\<rparr>)
                 else (None, w\<lparr>files := fs\<rparr>)))))))"

text \<open>The loop of \<^verbatim>\<open>downloadData\<close> over the inputs. (The stats tree, an in-memory hash
  tree that the puller fills, is not part of the world modelled here.)\<close>

fun download_inputs :: "os_env \<Rightarrow> string \<Rightarrow> Input list \<Rightarrow> world \<Rightarrow> go_error option \<times> world" where
  "download_inputs env scratchPath [] w = (None, w)"
| "download_inputs env scratchPath (input # inputs) w =
     (if GitURL input \<noteq> [] then
        (case downloadGitData env scratchPath input w of
           (Some err, w') \<Rightarrow> (Some err, w')
         | (None, w') \<Rightarrow> download_inputs env scratchPath inputs w')
      else
        (case Pull env input (Join [scratchPath, InputName input, FilePath input]) (files w) of
           (Some err, fs) \<Rightarrow> (Some err, w\<lparr>files := fs\<rparr>)
         | (None, fs) \<Rightarrow> download_inputs env scratchPath inputs (w\<lparr>files := fs\<rparr>)))"

text \<open>The output of the scratch space: a FIFO for a spout, a directory otherwise.\<close>

definition make_out :: "driver \<Rightarrow> os_env \<Rightarrow> string \<Rightarrow> world \<Rightarrow> go_error option \<times> world" where
  "make_out d env scratchPath w =
     (let outPath = Join [scratchPath, ''out''] in
      if Spout (pipelineInfo d) then
        (case MkdirAll env scratchPath w of
           (Some err, w') \<Rightarrow> (Some (Errorf ''mkdirall :'' err), w')
         | (None, w') \<Rightarrow>
             (case createSpoutFifo env outPath w' of
                (Some err, w'') \<Rightarrow> (Some (Errorf ''mkfifo :'' err), w'')
              | (None, w'') \<Rightarrow> (None, w'')))
      else MkdirAll env outPath w)"

text \<open>\<^verbatim>\<open>downloadData\<close> returns the scratch path, or the empty string with an error.\<close>

definition downloadData ::
  "driver \<Rightarrow> os_env \<Rightarrow> Input list \<Rightarrow> world \<Rightarrow> string \<times> go_error option \<times> world" where
  "downloadData d env inputs w =
     (let scratchPath = Join [inputDir d, PPSScratchSpace env, NewWithoutDashes env] in
      case make_out d env scratchPath w of
        (Some err, w') \<Rightarrow> ([], Some err, w')
      | (None, w') \<Rightarrow>
          (case download_inputs env scratchPath inputs w' of
             (Some err, w'') \<Rightarrow> ([], Some err, w'')
           | (None, w'') \<Rightarrow> (scratchPath, None, w'')))"

subsection \<open>Linking, ownership and \<^verbatim>\<open>WithData\<close>\<close>

text \<open>Modelled from the spec: \<^verbatim>\<open>linkData\<close> is not part of these sources. It creates
  \<open>inputDir/name\<close> as a symlink to \<open>scratchPath/name\<close> for each input, and \<open>inputDir/out\<close> as
  a symlink to \<open>scratchPath/out\<close>.\<close>

fun link_inputs :: "driver \<Rightarrow> os_env \<Rightarrow> Input list \<Rightarrow> string \<Rightarrow> world \<Rightarrow> go_error option \<times> world" where
  "link_inputs d env [] dir w = (None, w)"
| "link_inputs d env (input # inputs) dir w =
     (case Symlink_at env (Join [dir, InputName input]) (Join [inputDir d, InputName input]) w of
        (Some err, w') \<Rightarrow> (Some err, w')
      | (None, w') \<Rightarrow> link_inputs d env inputs dir w')"

definition linkData :: "driver \<Rightarrow> os_env \<Rightarrow> Input list \<Rightarrow> string \<Rightarrow> world \<Rightarrow> go_error option \<times> world" where
  "linkData d env inputs dir w =
     (case link_inputs d env inputs dir w of
        (Some err, w') \<Rightarrow> (Some err, w')
      | (None, w') \<Rightarrow> Symlink_at env (Join [dir, ''out'']) (Join [inputDir d, ''out'']) w')"

text \<open>The walk of \<^verbatim>\<open>WithData\<close> over the input directory: each path is given to \<^verbatim>\<open>os.Chown\<close>
  unless the walk itself reports an error for it; the first error ends the walk.\<close>

fun chown_walk ::
  "os_env \<Rightarrow> uint32 \<Rightarrow> uint32 \<Rightarrow> (string \<times> go_error option) list \<Rightarrow> world
     \<Rightarrow> go_error option \<times> world" where
  "chown_walk env u g [] w = (None, w)"
| "chown_walk env u g ((name, err) # rest) w =
     (case err of
        Some e \<Rightarrow> (Some e, w)
      | None \<Rightarrow>
          (case Chown env name u g w of
             (Some e, w') \<Rightarrow> (Some e, w')
           | (None, w') \<Rightarrow> chown_walk env u g rest w'))"

record ProcessStats =
  DownloadBytes :: uint64
  UploadBytes :: uint64

text \<open>
  The first part of \<^verbatim>\<open>WithData\<close>, up to the call of the callback: download, create the
  input directory, link, and hand the files to the configured user. It returns the error
  that ends \<^verbatim>\<open>WithData\<close> early (if any), the directory \<open>dir\<close> that \<^verbatim>\<open>downloadData\<close>
  returned, whether the deferred \<^verbatim>\<open>unlinkData\<close> is registered, and the world the callback
  is called in. The result of \<^verbatim>\<open>filepath.Walk\<close> is dropped, as in the source.
\<close>

definition stage ::
  "driver \<Rightarrow> os_env \<Rightarrow> Input list \<Rightarrow> world \<Rightarrow> go_error option \<times> string \<times> bool \<times> world" where
  "stage d env data w =
     (case downloadData d env data w of
        (dir, Some err, w1) \<Rightarrow> (Some (Errorf ''error downloadData: '' err), dir, False, w1)
      | (dir, None, w1) \<Rightarrow>
     (case MkdirAll env (inputDir d) w1 of
        (Some err, w2) \<Rightarrow> (Some err, dir, False, w2)
      | (None, w2) \<Rightarrow>
     (case linkData d env data dir w2 of
        (Some err, w3) \<Rightarrow> (Some (Errorf ''error linkData: '' err), dir, False, w3)
      | (None, w3) \<Rightarrow>
          (None, dir, True,
           (case (uid d, gid d) of
              (Some u, Some g) \<Rightarrow> snd (chown_walk env u g (Walk env (inputDir d) w3) w3)
            | _ \<Rightarrow> w3)))))"

text \<open>A call of \<^verbatim>\<open>puller.CleanUp\<close>: the answer depends on how many calls came before.\<close>

definition puller_CleanUp :: "os_env \<Rightarrow> world \<Rightarrow> (int64 \<times> go_error option) \<times> world" where
  "puller_CleanUp env w =
     (CleanUp env (length (filter (\<lambda>c. c = PullerCleanUp) (calls w))),
      w\<lparr>calls := calls w @ [PullerCleanUp]\<rparr>)"

text \<open>A deferred function of \<^verbatim>\<open>WithData\<close> sets \<open>retErr\<close> only when it is still nil.\<close>

definition keep_first :: "go_error option \<Rightarrow> go_error option \<Rightarrow> go_error option" where
  "keep_first retErr err = (if err \<noteq> None \<and> retErr = None then err else retErr)"

text \<open>The body of \<^verbatim>\<open>WithData\<close> after staging: the callback, then the first
  \<^verbatim>\<open>puller.CleanUp\<close>, whose size is added to the stats.\<close>

definition run_callback ::
  "os_env \<Rightarrow> (world \<Rightarrow> ProcessStats \<Rightarrow> go_error option \<times> world \<times> ProcessStats)
     \<Rightarrow> world \<Rightarrow> ProcessStats option \<times> go_error option \<times> world" where
  "run_callback env cb w =
     (case cb (w\<lparr>calls := calls w @ [UserCallback]\<rparr>) \<lparr>DownloadBytes = 0, UploadBytes = 0\<rparr> of
        (Some err, w', stats) \<Rightarrow> (None, Some err, w')
      | (None, w', stats) \<Rightarrow>
          (case puller_CleanUp env w' of
             ((downSize, Some err), w'') \<Rightarrow> (None, Some err, w'')
           | ((downSize, None), w'') \<Rightarrow>
               (Some (stats\<lparr>DownloadBytes := DownloadBytes stats + downSize\<rparr>), None, w'')))"

text \<open>The deferred functions of \<^verbatim>\<open>WithData\<close>, the last registered first:
  \<^verbatim>\<open>unlinkData\<close> (when registered), then \<^verbatim>\<open>puller.CleanUp\<close>, then \<^verbatim>\<open>os.RemoveAll(dir)\<close>.\<close>

definition run_deferred ::
  "driver \<Rightarrow> os_env \<Rightarrow> Input list \<Rightarrow> string \<Rightarrow> bool \<Rightarrow> go_error option \<Rightarrow> world
     \<Rightarrow> go_error option \<times> world" where
  "run_deferred d env data dir linked retErr w =
     (let (retErr, w) =
            (if linked then
               (case unlinkData d env data w of
                  (Some err, w') \<Rightarrow>
                    (keep_first retErr (Some (Errorf ''error unlinkData: '' err)), w')
                | (None, w') \<Rightarrow> (retErr, w'))
             else (retErr, w));
          (retErr, w) =
            (case puller_CleanUp env w of
               ((downSize, err), w') \<Rightarrow> (keep_first retErr err, w'));
          (retErr, w) =
            (case RemoveAll env dir w of
               (err, w') \<Rightarrow> (keep_first retErr err, w'))
      in (retErr, w))"

definition WithData ::
  "driver \<Rightarrow> os_env \<Rightarrow> Input list
     \<Rightarrow> (world \<Rightarrow> ProcessStats \<Rightarrow> go_error option \<times> world \<times> ProcessStats)
     \<Rightarrow> world \<Rightarrow> ProcessStats option \<times> go_error option \<times> world" where
  "WithData d env data cb w0 =
     (case stage d env data w0 of
        (staged, dir, linked, w) \<Rightarrow>
          (case (case staged of
                   Some err \<Rightarrow> (None, Some err, w)
                 | None \<Rightarrow> run_callback env cb w) of
             (retStats, retErr, w') \<Rightarrow>
               (case run_deferred d env data dir linked retErr w' of
                  (retErr', w'') \<Rightarrow> (retStats, retErr', w''))))"

subsection \<open>An example world\<close>

definition no_error :: "string \<Rightarrow> go_error option" where
  "no_error path = None"

definition example_os :: os_env where
  "example_os =
     \<lparr>PPSScratchSpace = ''.scratch'', NewWithoutDashes = ''abc'', procOwner = (0, 0),
      MkdirAllErr = no_error, MkfifoErr = no_error, SymlinkErr = no_error,
      ReadDirErr = no_error, RemoveAllErr = no_error, LstatErr = no_error, ChownErr = no_error,
      Pull = (\<lambda>input path fs. (None, fs @ [(path, \<lparr>kind = Regular, owner = (0, 0)\<rparr>)])),
      CleanUp = (\<lambda>n. (0, None)),
      GetFile = (\<lambda>input. Inr []),
      Unmarshal = (\<lambda>raw. Inr \<lparr>CloneURL = ''url'', Ref = ''refs/heads/master'', After = ''sha''\<rparr>),
      PlainClone = (\<lambda>path payload fs. (None, fs)),
      WorktreeErr = (\<lambda>input. None), CheckoutErr = (\<lambda>input. None),
      ResolveRevision = (\<lambda>input. Inr ''sha'')\<rparr>"

definition example_input :: Input where
  "example_input =
     \<lparr>InputName = ''in'', GitURL = [], FilePath = ''f'', RepoName = ''repo'',
      CommitID = ''c1'', Lazy = False, EmptyFiles = False\<rparr>"

definition by_root :: "file_kind \<Rightarrow> file_meta" where
  "by_root k = \<lparr>kind = k, owner = (0, 0)\<rparr>"

definition example_world :: world where
  "example_world =
     \<lparr>files =
        [(''/pfs'', by_root Directory),
         (''/pfs/.scratch'', by_root Directory),
         (''/pfs/.scratch/abc'', by_root Directory),
         (''/pfs/.scratch/abc/in'', by_root Directory),
         (''/pfs/.scratch/abc/in/f'', by_root Regular),
         (''/pfs/in'', by_root (Symlink ''/pfs/.scratch/abc/in'')),
         (''/pfs/out'', by_root (Symlink ''/pfs/.scratch/abc/out'')),
         (''/pfs/stale'', by_root Regular),
         (''/tmp/x'', by_root Regular)],
      calls = []\<rparr>"

definition empty_world :: world where
  "empty_world = \<lparr>files = [], calls = []\<rparr>"

text \<open>A puller whose \<^verbatim>\<open>Pull\<close> fails, a system that refuses \<^verbatim>\<open>chown\<close>, and a driver with a
  configured user.\<close>

definition failing_pull_os :: os_env where
  "failing_pull_os =
     example_os\<lparr>Pull := (\<lambda>input path fs. (Some (ErrorString ''pull failed''), fs))\<rparr>"

definition unprivileged_os :: os_env where
  "unprivileged_os =
     example_os\<lparr>ChownErr := (\<lambda>path. Some (ErrorString ''chown: operation not permitted''))\<rparr>"

definition user_driver :: driver where
  "user_driver = example_driver\<lparr>uid := Some 4000, gid := Some 4000\<rparr>"

definition example_cb :: "world \<Rightarrow> ProcessStats \<Rightarrow> go_error option \<times> world \<times> ProcessStats" where
  "example_cb w stats = (None, w, stats)"

text \<open>The change of owner that a walk over the paths \<open>names\<close> makes to an entry of the
  file system.\<close>

definition hand_over :: "string set \<Rightarrow> uint32 \<Rightarrow> uint32 \<Rightarrow> string \<times> file_meta \<Rightarrow> string \<times> file_meta" where
  "hand_over names u g = (\<lambda>(q, m). if q \<in> names then (q, m\<lparr>owner := (u, g)\<rparr>) else (q, m))"

text \<open>Every path at or below \<open>dir\<close> belongs to the user and group \<open>ug\<close>; and a callback
  that fails when that is not so.\<close>

definition owned_by :: "uint32 \<times> uint32 \<Rightarrow> string \<Rightarrow> world \<Rightarrow> bool" where
  "owned_by ug dir w = list_all (\<lambda>(q, m). under dir q \<longrightarrow> owner m = ug) (files w)"

definition ownership_probe ::
  "uint32 \<times> uint32 \<Rightarrow> string \<Rightarrow> world \<Rightarrow> ProcessStats \<Rightarrow> go_error option \<times> world \<times> ProcessStats" where
  "ownership_probe ug dir w stats =
     (if owned_by ug dir w then (None, w, stats) else (Some (ErrorString ''wrong owner''), w, stats))"

section \<open>Uploading the output\<close>

text \<open>
  Block references and file nodes (\<^verbatim>\<open>pfs.ByteRange\<close>, \<^verbatim>\<open>pfs.BlockRef\<close>,
  \<^verbatim>\<open>hashtree.FileNodeProto\<close>); a block is known by its hash.
\<close>

record ByteRange =
  Lower :: uint64
  Upper :: uint64

record BlockRef =
  Block :: string
  Range :: ByteRange

record FileNodeProto =
  BlockRefs :: "BlockRef list"

text \<open>Modelled from the spec: package \<^verbatim>\<open>hashtree\<close> is not part of these sources. The
  ordered tree is kept as the list of its puts, in order: \<^verbatim>\<open>PutDir(path)\<close> and
  \<^verbatim>\<open>PutFile(path, hash, size, node)\<close>.\<close>

datatype tree_op = PutDir string | PutFile string bytes int64 FileNodeProto

type_synonym hashtree = "tree_op list"

text \<open>What is sent on the \<^verbatim>\<open>PutObjects\<close> stream, and the calls on the writer of
  \<^verbatim>\<open>PutObjectAsync\<close>.\<close>

datatype PutObjectRequest = BlockRequest string | ValueRequest bytes

datatype object_call = PutObjectAsync string | WriteObject bytes | CloseObject

text \<open>The answers of \<^verbatim>\<open>InspectFile\<close>.\<close>

record FileInfo =
  Objects :: "string list"
  FileBlockRefs :: "BlockRef list"
  Hash :: bytes
  SizeBytes :: uint64

text \<open>What \<^verbatim>\<open>filepath.Walk\<close> hands to its function: the path, the mode of the file (the
  type bits of \<^verbatim>\<open>os.FileMode\<close>) and the error of the walk.\<close>

record walk_entry =
  filePath :: string
  mode :: "32 word"
  walkErr :: "go_error option"

definition ModeDir :: "32 word" where
  "ModeDir = push_bit 31 1"

definition ModeSymlink :: "32 word" where
  "ModeSymlink = push_bit 27 1"

definition ModeNamedPipe :: "32 word" where
  "ModeNamedPipe = push_bit 25 1"

definition IsDir :: "walk_entry \<Rightarrow> bool" where
  "IsDir info = (mode info AND ModeDir \<noteq> 0)"

definition errSpecialFile :: go_error where
  "errSpecialFile = ErrorString ''cannot upload special file''"

definition EOF :: go_error where
  "EOF = ErrorString ''EOF''"

text \<open>
  The standard library, the file system and the object store as \<^verbatim>\<open>UploadOutput\<close> meets
  them: \<^verbatim>\<open>utf8.ValidString\<close>, \<^verbatim>\<open>filepath.Rel\<close>, \<^verbatim>\<open>filepath.Clean\<close> (which
  \<^verbatim>\<open>filepath.Join\<close> applies to its result), \<^verbatim>\<open>os.Readlink\<close>, the visits of
  \<^verbatim>\<open>filepath.Walk\<close> from a root, \<^verbatim>\<open>InspectFile\<close> and the block reference of
  \<^verbatim>\<open>InspectObject\<close>, \<^verbatim>\<open>os.Open\<close> with the results of the successive \<^verbatim>\<open>Read\<close>s (data and
  error; after the last one the reader is at \<^verbatim>\<open>io.EOF\<close>), the sum of \<^verbatim>\<open>pfs.NewHash\<close>, the
  fresh block id, the errors of opening the stream, of the n-th \<^verbatim>\<open>Send\<close> and of
  \<^verbatim>\<open>CloseAndRecv\<close>, the serialisation of the tree, and the errors of
  \<^verbatim>\<open>PutObjectAsync\<close> and of its writer.
\<close>

record upload_env =
  ValidString :: "string \<Rightarrow> bool"
  Rel :: "string \<Rightarrow> string \<Rightarrow> go_error + string"
  Clean :: "string \<Rightarrow> string"
  Readlink :: "string \<Rightarrow> go_error + string"
  Visits :: "string \<Rightarrow> walk_entry list"
  InspectFile :: "string \<Rightarrow> string \<Rightarrow> string \<Rightarrow> go_error + FileInfo"
  InspectObject :: "string \<Rightarrow> go_error + BlockRef"
  Open :: "string \<Rightarrow> go_error + (bytes \<times> go_error option) list"
  NewHashSum :: "bytes \<Rightarrow> bytes"
  BlockHash :: string
  PutObjectsErr :: "go_error option"
  SendErr :: "nat \<Rightarrow> go_error option"
  CloseAndRecvErr :: "go_error option"
  Serialize :: "hashtree \<Rightarrow> go_error + bytes"
  PutObjectAsyncErr :: "go_error option"
  WriteErr :: "go_error option"
  WriterCloseErr :: "go_error option"

text \<open>The variables of \<^verbatim>\<open>UploadOutput\<close> that the walk changes: the datum tree (\<open>None\<close>
  while the pointer is nil), the stats tree (\<open>None\<close> when the caller gave none), the offset
  in the block, the stats, and the requests sent so far.\<close>

record upload_state =
  tree :: "hashtree option"
  statsTree :: "hashtree option"
  offset :: uint64
  stats :: ProcessStats
  sent :: "PutObjectRequest list"

text \<open>A put on the datum tree, repeated on the stats tree when there is one. A put on
  the nil tree panics.\<close>

definition tree_put :: "tree_op \<Rightarrow> upload_state \<Rightarrow> (go_error option \<times> upload_state) outcome" where
  "tree_put op s =
     (case tree s of
        None \<Rightarrow> Panics ''nil pointer dereference''
      | Some t \<Rightarrow>
          Returns (None, s\<lparr>tree := Some (t @ [op]),
                          statsTree := map_option (\<lambda>st. st @ [op]) (statsTree s)\<rparr>))"

text \<open>The input whose name is \<open>inputName\<close>: the loop has no break, so the last one wins.\<close>

definition find_input :: "Input list \<Rightarrow> string \<Rightarrow> Input option" where
  "find_input inputs inputName =
     foldl (\<lambda>input i. if InputName i = inputName then Some i else input) None inputs"

text \<open>
  The symlink branch up to its inner walk: the error of \<^verbatim>\<open>Readlink\<close>, or the root of the
  inner walk and the input when the link points into the input directory at a known
  input, or \<open>None\<close> when the link is to be uploaded like a file.
\<close>

definition symlink_target ::
  "driver \<Rightarrow> upload_env \<Rightarrow> Input list \<Rightarrow> string \<Rightarrow> string \<Rightarrow> go_error + (string \<times> Input) option" where
  "symlink_target d env inputs path relPath =
     (case Readlink env path of
        Inl err \<Rightarrow> Inl err
      | Inr realPath \<Rightarrow>
          if HasPrefix realPath (inputDir d) then
            (case (if HasPrefix realPath relPath then Rel env relPath realPath
                   else Rel env (inputDir d) realPath) of
               Inl err \<Rightarrow> Inr None
             | Inr pathWithInput \<Rightarrow>
                 (let inputName = hd (Split pathWithInput CHR ''/'');
                      input = find_input inputs inputName;
                      realPath = Clean env (Join [relPath, pathWithInput])
                  in case input of
                       None \<Rightarrow> Inr None
                     | Some input \<Rightarrow> Inr (Some (realPath, input))))
          else Inr None)"

text \<open>The block references of the objects of a file, in order.\<close>

fun inspect_objects :: "upload_env \<Rightarrow> string list \<Rightarrow> go_error + BlockRef list" where
  "inspect_objects env [] = Inr []"
| "inspect_objects env (object # objects) =
     (case InspectObject env object of
        Inl err \<Rightarrow> Inl err
      | Inr blockRef \<Rightarrow>
          (case inspect_objects env objects of
             Inl err \<Rightarrow> Inl err
           | Inr blockRefs \<Rightarrow> Inr (blockRef # blockRefs)))"

text \<open>The function of the inner walk, over the target of a symlink into the inputs: the
  files keep the block references they have in the input commit.\<close>

definition link_entry ::
  "upload_env \<Rightarrow> string \<Rightarrow> string \<Rightarrow> Input \<Rightarrow> upload_state \<Rightarrow> walk_entry
     \<Rightarrow> (go_error option \<times> upload_state) outcome" where
  "link_entry env relPath realPath input s info =
     (case walkErr info of
        Some err \<Rightarrow> Returns (Some err, s)
      | None \<Rightarrow>
     (case Rel env realPath (filePath info) of
        Inl err \<Rightarrow> Returns (Some err, s)
      | Inr rel \<Rightarrow>
     (let subRelPath = Clean env (Join [relPath, rel]) in
      case Rel env (Clean env (Join [relPath, InputName input])) (filePath info) of
        Inl err \<Rightarrow> Returns (Some err, s)
      | Inr pfsPath \<Rightarrow>
          if IsDir info then tree_put (PutDir subRelPath) s
          else
            (case InspectFile env (RepoName input) (CommitID input) pfsPath of
               Inl err \<Rightarrow> Returns (Some err, s)
             | Inr fileInfo \<Rightarrow>
                 (case inspect_objects env (Objects fileInfo) of
                    Inl err \<Rightarrow> Returns (Some err, s)
                  | Inr blockRefs \<Rightarrow>
                      tree_put
                        (PutFile subRelPath (Hash fileInfo) (SizeBytes fileInfo)
                           \<lparr>BlockRefs = blockRefs @ FileBlockRefs fileInfo\<rparr>) s)))))"

fun link_walk ::
  "upload_env \<Rightarrow> string \<Rightarrow> string \<Rightarrow> Input \<Rightarrow> walk_entry list \<Rightarrow> upload_state
     \<Rightarrow> (go_error option \<times> upload_state) outcome" where
  "link_walk env relPath realPath input [] s = Returns (None, s)"
| "link_walk env relPath realPath input (info # rest) s =
     (case link_entry env relPath realPath input s info of
        Returns (None, s') \<Rightarrow> link_walk env relPath realPath input rest s'
      | other \<Rightarrow> other)"

text \<open>
  The read loop of a file: each chunk read is sent on the stream and counted; the loop
  ends at a read of no bytes with an error, which is a failure unless the error is
  \<^verbatim>\<open>io.EOF\<close>. It returns the error, the size, the requests sent and the bytes read (which
  the tee reader has fed to the hash).
\<close>

fun send_chunks ::
  "upload_env \<Rightarrow> (bytes \<times> go_error option) list \<Rightarrow> int64 \<Rightarrow> PutObjectRequest list \<Rightarrow> bytes
     \<Rightarrow> go_error option \<times> int64 \<times> PutObjectRequest list \<times> bytes" where
  "send_chunks env [] sz reqs bs = (None, sz, reqs, bs)"
| "send_chunks env ((chunk, err) # reads) sz reqs bs =
     (if length chunk = 0 \<and> err \<noteq> None then
        (if err = Some EOF then (None, sz, reqs, bs) else (err, sz, reqs, bs))
      else
        (case SendErr env (length reqs) of
           Some e \<Rightarrow> (Some e, sz, reqs, bs @ chunk)
         | None \<Rightarrow>
             send_chunks env reads (sz + of_nat (length chunk)) (reqs @ [ValueRequest chunk])
               (bs @ chunk)))"

text \<open>The upload of one file: its bytes go to the block, and its node is the one range
  from the offset on. (The deferred \<^verbatim>\<open>Close\<close> of the file can only set the \<open>retErr\<close> of
  \<^verbatim>\<open>UploadOutput\<close>, which every return statement of \<^verbatim>\<open>UploadOutput\<close> then overwrites.)\<close>

definition upload_file ::
  "upload_env \<Rightarrow> string \<Rightarrow> string \<Rightarrow> upload_state \<Rightarrow> (go_error option \<times> upload_state) outcome" where
  "upload_file env path relPath s =
     (case Open env path of
        Inl err \<Rightarrow>
          Returns (Some (ErrorString (''os.Open('' @ path @ ''): '' @ Error err)), s)
      | Inr reads \<Rightarrow>
          (case send_chunks env reads 0 (sent s) [] of
             (Some err, sz, reqs, bs) \<Rightarrow> Returns (Some err, s\<lparr>sent := reqs\<rparr>)
           | (None, sz, reqs, bs) \<Rightarrow>
               (let n = \<lparr>BlockRefs =
                          [\<lparr>Block = BlockHash env,
                            Range = \<lparr>Lower = offset s, Upper = offset s + sz\<rparr>\<rparr>]\<rparr>;
                    hash = NewHashSum env bs
                in case tree_put (PutFile relPath hash sz n) (s\<lparr>sent := reqs\<rparr>) of
                     Returns (r, s') \<Rightarrow>
                       Returns (None, s'\<lparr>offset := offset s' + sz,
                                         stats := (stats s')\<lparr>UploadBytes := UploadBytes (stats s') + sz\<rparr>\<rparr>)
                   | other \<Rightarrow> other)))"

definition outputPath :: "driver \<Rightarrow> string" where
  "outputPath d = Join [inputDir d, ''out'']"

text \<open>The function \<^verbatim>\<open>UploadOutput\<close> gives to \<^verbatim>\<open>filepath.Walk\<close>.\<close>

definition upload_entry ::
  "driver \<Rightarrow> upload_env \<Rightarrow> Input list \<Rightarrow> upload_state \<Rightarrow> walk_entry
     \<Rightarrow> (go_error option \<times> upload_state) outcome" where
  "upload_entry d env inputs s info =
     (case walkErr info of
        Some err \<Rightarrow> Returns (Some err, s)
      | None \<Rightarrow>
          if \<not> ValidString env (filePath info) then
            Returns (Some (ErrorString (''file path is not valid utf-8: '' @ filePath info)), s)
          else if filePath info = outputPath d then Returns (None, s\<lparr>tree := Some []\<rparr>)
          else
            (case Rel env (outputPath d) (filePath info) of
               Inl err \<Rightarrow> Returns (Some err, s)
             | Inr relPath \<Rightarrow>
                 if IsDir info then tree_put (PutDir relPath) s
                 else if mode info AND ModeNamedPipe > 0 then Returns (Some errSpecialFile, s)
                 else if mode info AND ModeSymlink > 0 then
                   (case symlink_target d env inputs (filePath info) relPath of
                      Inl err \<Rightarrow> Returns (Some err, s)
                    | Inr (Some (realPath, input)) \<Rightarrow>
                        link_walk env relPath realPath input (Visits env realPath) s
                    | Inr None \<Rightarrow> upload_file env (filePath info) relPath s)
                 else upload_file env (filePath info) relPath s))"

fun walk_output ::
  "driver \<Rightarrow> upload_env \<Rightarrow> Input list \<Rightarrow> walk_entry list \<Rightarrow> upload_state
     \<Rightarrow> (go_error option \<times> upload_state) outcome" where
  "walk_output d env inputs [] s = Returns (None, s)"
| "walk_output d env inputs (info # rest) s =
     (case upload_entry d env inputs s info of
        Returns (None, s') \<Rightarrow> walk_output d env inputs rest s'
      | other \<Rightarrow> other)"

text \<open>The state in which the walk starts: the block has been sent, the tree is nil.\<close>

definition start_state :: "upload_env \<Rightarrow> ProcessStats \<Rightarrow> hashtree option \<Rightarrow> upload_state" where
  "start_state env procStats st =
     \<lparr>tree = None, statsTree = st, offset = 0, stats = procStats,
      sent = [BlockRequest (BlockHash env)]\<rparr>"

text \<open>
  \<^verbatim>\<open>UploadOutput\<close> returns the buffer and the error; the model adds the state after the
  walk and the calls made for the tagged object. The error of the deferred \<^verbatim>\<open>w.Close\<close>
  replaces the returned error only when there is one already.
\<close>

definition UploadOutput ::
  "driver \<Rightarrow> upload_env \<Rightarrow> string \<Rightarrow> Input list \<Rightarrow> ProcessStats \<Rightarrow> hashtree option
     \<Rightarrow> (bytes option \<times> go_error option \<times> upload_state \<times> object_call list) outcome" where
  "UploadOutput d env tag inputs procStats st =
     (let s0 = start_state env procStats st in
      case PutObjectsErr env of
        Some err \<Rightarrow> Returns (None, Some err, s0\<lparr>sent := []\<rparr>, [])
      | None \<Rightarrow>
     (case SendErr env 0 of
        Some err \<Rightarrow> Returns (None, Some err, s0\<lparr>sent := []\<rparr>, [])
      | None \<Rightarrow>
     (case walk_output d env inputs (Visits env (outputPath d)) s0 of
        Panics m \<Rightarrow> Panics m
      | Fatal err \<Rightarrow> Fatal err
      | Returns (Some err, s) \<Rightarrow> Returns (None, Some (Errorf ''error walking output: '' err), s, [])
      | Returns (None, s) \<Rightarrow>
          if CloseAndRecvErr env \<noteq> None \<and> CloseAndRecvErr env \<noteq> Some EOF then
            Returns (None, CloseAndRecvErr env, s, [])
          else
            (case tree s of
               None \<Rightarrow> Panics ''nil pointer dereference''
             | Some t \<Rightarrow>
            (case Serialize env t of
               Inl err \<Rightarrow> Returns (None, Some err, s, [])
             | Inr b \<Rightarrow>
            (case PutObjectAsyncErr env of
               Some err \<Rightarrow> Returns (None, Some err, s, [PutObjectAsync tag])
             | None \<Rightarrow>
            (case WriteErr env of
               Some err \<Rightarrow>
                 Returns (None,
                   (case WriterCloseErr env of Some cerr \<Rightarrow> Some cerr | None \<Rightarrow> Some err),
                   s, [PutObjectAsync tag, WriteObject b, CloseObject])
             | None \<Rightarrow>
                 Returns (Some b, None, s, [PutObjectAsync tag, WriteObject b, CloseObject]))))))))"

text \<open>The number of bytes the read loop counts for a list of reads, and for the file at a
  path.\<close>

fun read_size :: "(bytes \<times> go_error option) list \<Rightarrow> nat" where
  "read_size [] = 0"
| "read_size ((chunk, err) # reads) =
     (if length chunk = 0 \<and> err \<noteq> None then 0 else length chunk + read_size reads)"

definition file_size :: "upload_env \<Rightarrow> string \<Rightarrow> nat" where
  "file_size env path = (case Open env path of Inl err \<Rightarrow> 0 | Inr reads \<Rightarrow> read_size reads)"

text \<open>The entries whose bytes the walk streams to the block: not the root, no directory,
  no named pipe, and no symlink into a known input (such a link gets the block references
  of the input).\<close>

definition uploaded :: "driver \<Rightarrow> upload_env \<Rightarrow> Input list \<Rightarrow> walk_entry \<Rightarrow> bool" where
  "uploaded d env inputs info =
     (walkErr info = None \<and> ValidString env (filePath info) \<and> filePath info \<noteq> outputPath d
      \<and> (case Rel env (outputPath d) (filePath info) of
            Inl err \<Rightarrow> False
          | Inr relPath \<Rightarrow>
              \<not> IsDir info \<and> \<not> (mode info AND ModeNamedPipe) > 0
              \<and> ((mode info AND ModeSymlink) > 0
                    \<longrightarrow> symlink_target d env inputs (filePath info) relPath = Inr None)))"

text \<open>The bytes of the uploaded files among the entries.\<close>

definition uploaded_bytes :: "driver \<Rightarrow> upload_env \<Rightarrow> Input list \<Rightarrow> walk_entry list \<Rightarrow> nat" where
  "uploaded_bytes d env inputs entries =
     sum_list (map (\<lambda>info. file_size env (filePath info)) (filter (uploaded d env inputs) entries))"

subsection \<open>An example output directory\<close>

definition example_rel :: "string \<Rightarrow> string \<Rightarrow> go_error + string" where
  "example_rel base targ =
     (if targ = base then Inr ''.''
      else if prefix (base @ ''/'') targ then Inr (drop (length base + 1) targ)
      else Inl (ErrorString ''Rel: cannot make the path relative''))"

definition dir_entry :: "string \<Rightarrow> walk_entry" where
  "dir_entry path = \<lparr>filePath = path, mode = ModeDir OR 493, walkErr = None\<rparr>"

definition file_entry :: "string \<Rightarrow> walk_entry" where
  "file_entry path = \<lparr>filePath = path, mode = 420, walkErr = None\<rparr>"

definition pipe_entry :: "string \<Rightarrow> walk_entry" where
  "pipe_entry path = \<lparr>filePath = path, mode = ModeNamedPipe OR 420, walkErr = None\<rparr>"

definition example_upload :: upload_env where
  "example_upload =
     \<lparr>ValidString = (\<lambda>path. True), Rel = example_rel, Clean = (\<lambda>path. path),
      Readlink = (\<lambda>path. Inl (ErrorString ''readlink: invalid argument'')),
      Visits = (\<lambda>root. if root = ''/pfs/out''
                 then [dir_entry ''/pfs/out'', file_entry ''/pfs/out/a'', dir_entry ''/pfs/out/d'',
                       file_entry ''/pfs/out/d/b'']
                 else []),
      InspectFile = (\<lambda>repo commit path. Inl (ErrorString ''file not found'')),
      InspectObject = (\<lambda>object. Inl (ErrorString ''object not found'')),
      Open = (\<lambda>path. if path = ''/pfs/out/a'' then Inr [([1, 2, 3], None), ([4, 5], None), ([], Some EOF)]
                else if path = ''/pfs/out/d/b'' then Inr [([6], Some EOF)]
                else Inl (ErrorString ''no such file or directory'')),
      NewHashSum = (\<lambda>bs. [of_nat (length bs)]),
      BlockHash = ''block1'',
      PutObjectsErr = None, SendErr = (\<lambda>n. None), CloseAndRecvErr = Some EOF,
      Serialize = (\<lambda>t. Inr [of_nat (length t)]),
      PutObjectAsyncErr = None, WriteErr = None, WriterCloseErr = None\<rparr>"

definition example_upload_pipe :: upload_env where
  "example_upload_pipe =
     example_upload\<lparr>Visits := (\<lambda>root. if root = ''/pfs/out''
                 then [dir_entry ''/pfs/out'', file_entry ''/pfs/out/a'', pipe_entry ''/pfs/out/p'']
                 else [])\<rparr>"

definition no_stats :: ProcessStats where
  "no_stats = \<lparr>DownloadBytes = 0, UploadBytes = 0\<rparr>"

text \<open>The blocks opened on a stream, and the bytes sent on it.\<close>

fun blocks_of :: "PutObjectRequest list \<Rightarrow> string list" where
  "blocks_of [] = []"
| "blocks_of (BlockRequest b # reqs) = b # blocks_of reqs"
| "blocks_of (ValueRequest v # reqs) = blocks_of reqs"

fun stream_bytes :: "PutObjectRequest list \<Rightarrow> bytes" where
  "stream_bytes [] = []"
| "stream_bytes (BlockRequest b # reqs) = stream_bytes reqs"
| "stream_bytes (ValueRequest v # reqs) = v @ stream_bytes reqs"

text \<open>\<open>streamed env reqs n\<close>: the one block opened on the stream is the fresh block of this
  upload, and \<open>n\<close> bytes have been sent to it.\<close>

definition streamed :: "upload_env \<Rightarrow> PutObjectRequest list \<Rightarrow> nat \<Rightarrow> bool" where
  "streamed env reqs n = (blocks_of reqs = [BlockHash env] \<and> length (stream_bytes reqs) = n)"

text \<open>The states of the example walk before and after the file \<open>d/b\<close>.\<close>

definition node_at :: "uint64 \<Rightarrow> uint64 \<Rightarrow> FileNodeProto" where
  "node_at lo hi = \<lparr>BlockRefs = [\<lparr>Block = ''block1'', Range = \<lparr>Lower = lo, Upper = hi\<rparr>\<rparr>]\<rparr>"

definition state_before_b :: upload_state where
  "state_before_b =
     \<lparr>tree = Some [PutFile ''a'' [5] 5 (node_at 0 5), PutDir ''d''], statsTree = None,
      offset = 5, stats = \<lparr>DownloadBytes = 0, UploadBytes = 5\<rparr>,
      sent = [BlockRequest ''block1'', ValueRequest [1, 2, 3], ValueRequest [4, 5]]\<rparr>"

definition state_after_b :: upload_state where
  "state_after_b =
     \<lparr>tree = Some [PutFile ''a'' [5] 5 (node_at 0 5), PutDir ''d'',
                   PutFile ''d/b'' [1] 1 (node_at 5 6)],
      statsTree = None,
      offset = 6, stats = \<lparr>DownloadBytes = 0, UploadBytes = 6\<rparr>,
      sent = [BlockRequest ''block1'', ValueRequest [1, 2, 3], ValueRequest [4, 5],
              ValueRequest [6]]\<rparr>"


section \<open>Theorems\<close>

subsection \<open>The mock driver's number of workers\<close>

text \<open>
  C10. \<^verbatim>\<open>GetExpectedNumWorkers\<close> of a mock driver built by \<^verbatim>\<open>NewMockDriver\<close> returns no
  error and never 0: it returns the configured number when that is not 0, and 1 when it
  is 0.
\<close>

theorem GetExpectedNumWorkers_NewMockDriver:
  "GetExpectedNumWorkers (NewMockDriver opts) =
     ((if NumWorkers opts = 0 then 1 else NumWorkers opts), None)
   \<and> fst (GetExpectedNumWorkers (NewMockDriver opts)) \<noteq> 0"
  by (simp add: GetExpectedNumWorkers_def NewMockDriver_def Let_def)

theorem GetExpectedNumWorkers_NewMockDriver_witness:
  "GetExpectedNumWorkers (NewMockDriver \<lparr>NumWorkers = 0, EtcdPrefix = ''/test''\<rparr>) = (1, None)
   \<and> GetExpectedNumWorkers (NewMockDriver \<lparr>NumWorkers = 5, EtcdPrefix = ''/test''\<rparr>) = (5, None)"
  using GetExpectedNumWorkers_NewMockDriver [of "\<lparr>NumWorkers = 0, EtcdPrefix = ''/test''\<rparr>"]
    GetExpectedNumWorkers_NewMockDriver [of "\<lparr>NumWorkers = 5, EtcdPrefix = ''/test''\<rparr>"]
  by simp

subsection \<open>Exit codes of the user's command\<close>

lemma accepted_iff: "accepted codes status \<longleftrightarrow> status \<in> set codes"
  by (induction codes) auto

text \<open>
  C3. When the command is not empty, the timeout parses, the process starts and is waited
  for, the context is not done, and \<^verbatim>\<open>WaitIO\<close> reports the exit of the process (whose
  message does not mention a broken pipe), \<^verbatim>\<open>RunUserCode\<close> returns nil exactly when the
  exit status is 0 or is listed in \<^verbatim>\<open>AcceptReturnCode\<close>; every other status gives the
  error "error cmd.WaitIO: ...".
\<close>

theorem RunUserCode_exit_status:
  assumes "Cmd (transform (pipelineInfo d)) \<noteq> []"
    and "rawDatumTimeout \<longrightarrow> DurationFromProto env = None"
    and "Start env = None" and "Wait env = None" and "\<not> IsDone env"
    and "WaitIO env = exit_error msg status"
    and "\<not> Contains msg ''broken pipe''"
  shows "(RunUserCode d env rawDatumTimeout = None
            \<longleftrightarrow> status = 0 \<or> status \<in> set (AcceptReturnCode (transform (pipelineInfo d))))
       \<and> (RunUserCode d env rawDatumTimeout \<noteq> None \<longrightarrow>
            RunUserCode d env rawDatumTimeout
              = Some (ErrorString (''error cmd.WaitIO: '' @ msg)))"
  using assms
  by (auto simp: RunUserCode_def run_cmd_def exit_error_def accepted_iff Errorf_def
      split: option.splits)

theorem RunUserCode_exit_status_witness:
  "RunUserCode example_driver (exited ''exit status 42'' 42) False = None
   \<and> RunUserCode example_driver (exited ''exit status 43'' 43) False
       = Some (ErrorString ''error cmd.WaitIO: exit status 43'')
   \<and> RunUserCode example_driver (exited '''' 0) False = None"
  using RunUserCode_exit_status [of example_driver False "exited ''exit status 42'' 42"
      "''exit status 42''" 42]
    RunUserCode_exit_status [of example_driver False "exited ''exit status 43'' 43"
      "''exit status 43''" 43]
    RunUserCode_exit_status [of example_driver False "exited '''' 0" "''''" 0]
  by (simp add: example_driver_def example_transform_def exited_def)

subsection \<open>The error handler with no command\<close>

text \<open>
  C7. With an empty \<^verbatim>\<open>ErrCmd\<close>, \<^verbatim>\<open>RunUserErrorHandlingCode\<close> panics on \<^verbatim>\<open>ErrCmd[0]\<close>, where
  \<^verbatim>\<open>RunUserCode\<close> with an empty \<^verbatim>\<open>Cmd\<close> returns the "no command" error.
\<close>

theorem RunUserErrorHandlingCode_empty_ErrCmd:
  "RunUserErrorHandlingCode example_driver (exited '''' 0) False
     = Panics ''runtime error: index out of range''
   \<and> RunUserCode
       (example_driver\<lparr>pipelineInfo := (pipelineInfo example_driver)
          \<lparr>transform := example_transform\<lparr>Cmd := []\<rparr>\<rparr>\<rparr>) (exited '''' 0) False
     = Some (ErrorString ''invalid pipeline transform, no command specified'')"
  by (simp add: RunUserErrorHandlingCode_def RunUserCode_def example_driver_def
      example_transform_def)

subsection \<open>Deleting a job\<close>

lemma sint_decrement:
  assumes "- (2 ^ 31) < sint (x :: int32)"
  shows "sint (x - 1) = sint x - 1"
proof -
  have "sint x < 2 ^ 31"
    using sint_lt [of x] by simp
  with assms have "signed_take_bit 31 (sint x - 1) = sint x - 1"
    by (simp add: signed_take_bit_int_eq_self_iff)
  then show ?thesis
    by (simp add: sint_word_ariths)
qed

lemma JobCount_decrement_count:
  "decrement_count st p = Inr p' \<Longrightarrow>
     JobCount p' k = (if k = st \<and> JobCount p st \<noteq> 0 then JobCount p st - 1 else JobCount p k)"
  by (cases "JobCounts p")
    (auto simp: decrement_count_def JobCount_def index_map_def Let_def split: if_splits)

lemma DeleteJob_unfold:
  assumes "pipelines s (JobPipeline job) = Some p"
  shows "\<exists>p'. decrement_count (State job) p = Inr p'
           \<and> DeleteJob s job
               = Delete (s\<lparr>pipelines := (pipelines s)(JobPipeline job \<mapsto> p')\<rparr>) (JobID job)"
  using assms by (simp add: DeleteJob_def Update_def decrement_count_def Let_def)

text \<open>
  C6. For a job whose pipeline entry exists, \<^verbatim>\<open>DeleteJob\<close> leaves the job entry absent,
  touches no other job and no other pipeline, and changes only the counter of the job's
  state: a counter of 0 stays 0, any other counter is decremented by one. A counter that
  was not negative does not become negative, and no counter grows (the counter being a
  count, hence not the least \<^verbatim>\<open>int32\<close>).
\<close>

theorem DeleteJob_counters:
  assumes "pipelines s (JobPipeline job) = Some p"
  shows "\<exists>p'. pipelines (snd (DeleteJob s job)) (JobPipeline job) = Some p'
     \<and> JobCount p' (State job) = (if JobCount p (State job) = 0 then 0 else JobCount p (State job) - 1)
     \<and> (\<forall>k. k \<noteq> State job \<longrightarrow> JobCount p' k = JobCount p k)
     \<and> (0 \<le> sint (JobCount p (State job)) \<longrightarrow> 0 \<le> sint (JobCount p' (State job)))
     \<and> (- (2 ^ 31) < sint (JobCount p (State job)) \<longrightarrow>
          (\<forall>k. sint (JobCount p' k) \<le> sint (JobCount p k)))
     \<and> jobs (snd (DeleteJob s job)) (JobID job) = None
     \<and> (\<forall>j. j \<noteq> JobID job \<longrightarrow> jobs (snd (DeleteJob s job)) j = jobs s j)
     \<and> (\<forall>n. n \<noteq> JobPipeline job \<longrightarrow> pipelines (snd (DeleteJob s job)) n = pipelines s n)
     \<and> (jobs s (JobID job) \<noteq> None \<longrightarrow> fst (DeleteJob s job) = None)"
proof -
  from DeleteJob_unfold [OF assms] obtain p' where
    dec: "decrement_count (State job) p = Inr p'" and
    del: "DeleteJob s job
            = Delete (s\<lparr>pipelines := (pipelines s)(JobPipeline job \<mapsto> p')\<rparr>) (JobID job)"
    by blast
  note cnt = JobCount_decrement_count [OF dec]
  have pip: "pipelines (snd (DeleteJob s job)) = (pipelines s)(JobPipeline job \<mapsto> p')"
    by (simp add: del Delete_def split: option.splits)
  have jbs: "jobs (snd (DeleteJob s job)) = (jobs s)(JobID job := None)"
    by (auto simp: del Delete_def split: option.splits)
  have c0: "JobCount p' (State job)
              = (if JobCount p (State job) = 0 then 0 else JobCount p (State job) - 1)"
    by (simp add: cnt)
  have nonneg: "0 \<le> sint (JobCount p' (State job))" if "0 \<le> sint (JobCount p (State job))"
  proof (cases "JobCount p (State job) = 0")
    case True
    then show ?thesis by (simp add: c0)
  next
    case False
    then have "sint (JobCount p (State job)) \<noteq> 0"
      by (metis signed_eq_0_iff)
    with that have "0 < sint (JobCount p (State job))" by simp
    moreover have "sint (JobCount p (State job) - 1) = sint (JobCount p (State job)) - 1"
      using that by (intro sint_decrement) simp
    ultimately show ?thesis using False by (simp add: c0)
  qed
  have mono: "sint (JobCount p' k) \<le> sint (JobCount p k)"
    if "- (2 ^ 31) < sint (JobCount p (State job))" for k
    using sint_decrement [OF that] by (simp add: cnt)
  have ok: "fst (DeleteJob s job) = None" if "jobs s (JobID job) \<noteq> None"
    using that by (auto simp: del Delete_def split: option.splits)
  show ?thesis
    using c0 nonneg mono ok by (intro exI [of _ p']) (simp add: pip jbs cnt)
qed

theorem DeleteJob_counters_witness:
  "(\<exists>p'. pipelines (snd (DeleteJob example_stm \<lparr>JobID = ''j2'', JobPipeline = ''p'', State = 3\<rparr>)) ''p''
            = Some p'
      \<and> JobCount p' 3 = 0 \<and> JobCount p' 1 = 2)
   \<and> jobs (snd (DeleteJob example_stm \<lparr>JobID = ''j2'', JobPipeline = ''p'', State = 3\<rparr>)) ''j2'' = None
   \<and> fst (DeleteJob example_stm \<lparr>JobID = ''j2'', JobPipeline = ''p'', State = 3\<rparr>) = None"
proof -
  define job where "job = \<lparr>JobID = ''j2'', JobPipeline = ''p'', State = 3\<rparr>"
  define p where "p = \<lparr>JobCounts = Some [1 \<mapsto> 2, 3 \<mapsto> (0 :: int32)]\<rparr>"
  have sel: "JobID job = ''j2''" "JobPipeline job = ''p''" "State job = 3"
    by (simp_all add: job_def)
  have pre: "pipelines example_stm (JobPipeline job) = Some p"
    by (simp add: example_stm_def job_def p_def)
  have cnt: "JobCount p 3 = 0" "JobCount p 1 = 2"
    by (simp_all add: p_def JobCount_def index_map_def)
  have present: "jobs example_stm (JobID job) \<noteq> None"
    by (simp add: example_stm_def job_def)
  from DeleteJob_counters [OF pre] obtain p' where
    "pipelines (snd (DeleteJob example_stm job)) ''p'' = Some p'"
    "JobCount p' 3 = 0"
    "\<forall>k. k \<noteq> 3 \<longrightarrow> JobCount p' k = JobCount p k"
    "jobs (snd (DeleteJob example_stm job)) ''j2'' = None"
    "fst (DeleteJob example_stm job) = None"
    using present unfolding sel by (auto simp: cnt)
  then show ?thesis
    unfolding job_def [symmetric] using cnt by auto
qed

subsection \<open>The group of a user spec\<close>

lemma Split_no_sep: "c \<notin> set s \<Longrightarrow> Split s c = [s]"
  by (induction s) auto

lemma Split_two: "c \<notin> set a \<Longrightarrow> c \<notin> set b \<Longrightarrow> Split (a @ c # b) c = [a, b]"
  by (induction a) (auto simp: Split_no_sep)

lemma scan_passwd_skip:
  "passes_over u l \<Longrightarrow> scan_passwd etc a u g (l # rest) = scan_passwd etc a u g rest"
  by (auto simp: passes_over_def Let_def split: option.splits)

lemma scan_passwd_match_uid:
  "Split line CHR '':'' = p0 # p1 # u # p3 # p4 # p5 # extra \<Longrightarrow> p0 \<noteq> u \<Longrightarrow> g \<noteq> []
     \<Longrightarrow> scan_passwd etc a u g (line # post)
       = Returns (Some \<lparr>Username = p0, Uid = u, Gid = g, Name = p4, HomeDir = p5\<rparr>, None)"
  by (simp add: Let_def index_def matched_line_def)

lemma scan_passwd_uid:
  assumes "list_all (passes_over u) pre"
    and "Split line CHR '':'' = p0 # p1 # u # p3 # p4 # p5 # extra"
    and "p0 \<noteq> u" and "g \<noteq> []"
  shows "scan_passwd etc userArg u g (pre @ line # post)
       = Returns (Some \<lparr>Username = p0, Uid = u, Gid = g, Name = p4, HomeDir = p5\<rparr>, None)"
  using assms(1)
proof (induction pre)
  case Nil
  show ?case
    using scan_passwd_match_uid [OF assms(2-4)] by simp
next
  case (Cons l pre)
  then have "passes_over u l" and "list_all (passes_over u) pre"
    by simp_all
  with scan_passwd_skip [of u l] Cons.IH show ?case
    by simp
qed

lemma scan_group_none:
  "list_all (\<lambda>l. index (Split l CHR '':'') 0 \<noteq> Some g) ls \<Longrightarrow>
     scan_group g ls = Returns (None, Some (ErrorString (''group '' @ g @ '' not found'')))"
  by (induction ls) (auto simp: Let_def)

lemma lookupGroup_none:
  assumes "OpenErr f = None" and "list_all (\<lambda>l. index (Split l CHR '':'') 0 \<noteq> Some g) (Lines f)"
  shows "lookupGroup f g = Returns (None, Some (ErrorString (''group '' @ g @ '' not found'')))"
  using assms(1) scan_group_none [OF assms(2)] by (simp add: lookupGroup_def)

lemma scan_passwd_match_name:
  assumes "Split line CHR '':'' = u # p1 # p2 # p3 # p4 # p5 # extra" and "g \<noteq> []"
    and "OpenErr (groupFile etc) = None"
    and "list_all (\<lambda>l. index (Split l CHR '':'') 0 \<noteq> Some g) (Lines (groupFile etc))"
  shows "scan_passwd etc a u g (line # post)
       = Returns (None, Some (ErrorString (''group '' @ g @ '' not found'')))"
  using assms(1,2) lookupGroup_none [OF assms(3,4)]
  by (simp add: Let_def index_def matched_line_def)

lemma scan_passwd_name:
  assumes "list_all (passes_over u) pre"
    and "Split line CHR '':'' = u # p1 # p2 # p3 # p4 # p5 # extra" and "g \<noteq> []"
    and "OpenErr (groupFile etc) = None"
    and "list_all (\<lambda>l. index (Split l CHR '':'') 0 \<noteq> Some g) (Lines (groupFile etc))"
  shows "scan_passwd etc userArg u g (pre @ line # post)
       = Returns (None, Some (ErrorString (''group '' @ g @ '' not found'')))"
  using assms(1)
proof (induction pre)
  case Nil
  show ?case
    using scan_passwd_match_name [OF assms(2-5)] by simp
next
  case (Cons l pre)
  then have "passes_over u l" and "list_all (passes_over u) pre"
    by simp_all
  with scan_passwd_skip [of u l] Cons.IH show ?case
    by simp
qed

lemma scan_group_found:
  assumes "list_all (\<lambda>l. index (Split l CHR '':'') 0 \<noteq> Some g) gpre"
    and "Split gline CHR '':'' = g # q1 # q2 # gextra"
  shows "scan_group g (gpre @ gline # gpost) = Returns (Some \<lparr>GroupGid = q2, GroupName = g\<rparr>, None)"
  using assms by (induction gpre) (auto simp: Let_def index_def)

lemma lookupGroup_found:
  assumes "OpenErr f = None" and "Lines f = gpre @ gline # gpost"
    and "list_all (\<lambda>l. index (Split l CHR '':'') 0 \<noteq> Some g) gpre"
    and "Split gline CHR '':'' = g # q1 # q2 # gextra"
  shows "lookupGroup f g = Returns (Some \<lparr>GroupGid = q2, GroupName = g\<rparr>, CloseErr f)"
  using assms(1,2) scan_group_found [OF assms(3,4), of gpost]
  by (simp add: lookupGroup_def)

lemma scan_passwd_match_name_found:
  assumes "Split line CHR '':'' = u # p1 # p2 # p3 # p4 # p5 # extra" and "g \<noteq> []"
    and "OpenErr (groupFile etc) = None" and "Lines (groupFile etc) = gpre @ gline # gpost"
    and "list_all (\<lambda>l. index (Split l CHR '':'') 0 \<noteq> Some g) gpre"
    and "Split gline CHR '':'' = g # q1 # q2 # gextra"
  shows "scan_passwd etc a u g (line # post)
       = (case CloseErr (groupFile etc) of
            None \<Rightarrow> Returns (Some \<lparr>Username = u, Uid = p2, Gid = q2, Name = p4, HomeDir = p5\<rparr>, None)
          | Some err \<Rightarrow> Returns (None, Some err))"
  using assms(1,2) lookupGroup_found [OF assms(3-6)]
  by (simp add: Let_def index_def matched_line_def split: option.splits)

lemma scan_passwd_name_found:
  assumes "list_all (passes_over u) pre"
    and "Split line CHR '':'' = u # p1 # p2 # p3 # p4 # p5 # extra" and "g \<noteq> []"
    and "OpenErr (groupFile etc) = None" and "Lines (groupFile etc) = gpre @ gline # gpost"
    and "list_all (\<lambda>l. index (Split l CHR '':'') 0 \<noteq> Some g) gpre"
    and "Split gline CHR '':'' = g # q1 # q2 # gextra"
  shows "scan_passwd etc userArg u g (pre @ line # post)
       = (case CloseErr (groupFile etc) of
            None \<Rightarrow> Returns (Some \<lparr>Username = u, Uid = p2, Gid = q2, Name = p4, HomeDir = p5\<rparr>, None)
          | Some err \<Rightarrow> Returns (None, Some err))"
  using assms(1)
proof (induction pre)
  case Nil
  show ?case
    using scan_passwd_match_name_found [OF assms(2-7)] by simp
next
  case (Cons l pre)
  then have "passes_over u l" and "list_all (passes_over u) pre"
    by simp_all
  with scan_passwd_skip [of u l] Cons.IH show ?case
    by simp
qed

text \<open>
  C8, as the code has it. Take a spec \<open>user:group\<close> (no further colon, the group not empty)
  and the first line of \<^verbatim>\<open>/etc/passwd\<close> that matches the user part, a line of at least
  six fields, every line before it having at least three fields and matching neither by
  name nor by uid. If the line matches by its uid field and not by its name, the group part
  is taken as the gid as it stands: \<^verbatim>\<open>/etc/group\<close> is not read. If the line matches by its
  name, the group part, numeric or not, is looked up as a group name in \<^verbatim>\<open>/etc/group\<close>:
  the lookup fails with "group ... not found" when no line of \<^verbatim>\<open>/etc/group\<close> has that
  name, and when a line has it, the gid of the user is the third field of the first such
  line (an error closing \<^verbatim>\<open>/etc/group\<close> is returned instead).
\<close>

theorem lookupDockerUser_group:
  assumes "CHR '':'' \<notin> set u" and "CHR '':'' \<notin> set g" and "g \<noteq> []"
    and "OpenErr (passwd etc) = None"
    and "Lines (passwd etc) = pre @ line # post"
    and "list_all (passes_over u) pre"
    and "Split line CHR '':'' = p0 # p1 # p2 # p3 # p4 # p5 # extra"
  shows "(p0 \<noteq> u \<and> p2 = u \<longrightarrow>
            lookupDockerUser etc (u @ CHR '':'' # g)
              = Returns (Some \<lparr>Username = p0, Uid = u, Gid = g, Name = p4, HomeDir = p5\<rparr>,
                         CloseErr (passwd etc)))
       \<and> (p0 = u \<and> OpenErr (groupFile etc) = None
            \<and> list_all (\<lambda>l. index (Split l CHR '':'') 0 \<noteq> Some g) (Lines (groupFile etc)) \<longrightarrow>
            lookupDockerUser etc (u @ CHR '':'' # g)
              = Returns (None, Some (ErrorString (''group '' @ g @ '' not found''))))
       \<and> (p0 = u \<and> OpenErr (groupFile etc) = None
            \<and> Lines (groupFile etc) = gpre @ gline # gpost
            \<and> list_all (\<lambda>l. index (Split l CHR '':'') 0 \<noteq> Some g) gpre
            \<and> Split gline CHR '':'' = g # q1 # q2 # gextra \<longrightarrow>
            lookupDockerUser etc (u @ CHR '':'' # g)
              = (case CloseErr (groupFile etc) of
                   None \<Rightarrow>
                     Returns (Some \<lparr>Username = u, Uid = p2, Gid = q2, Name = p4, HomeDir = p5\<rparr>,
                              CloseErr (passwd etc))
                 | Some err \<Rightarrow> Returns (None, Some err)))"
proof (intro conjI impI; elim conjE)
  assume "p0 \<noteq> u" and "p2 = u"
  with assms(7) have "Split line CHR '':'' = p0 # p1 # u # p3 # p4 # p5 # extra"
    by simp
  from scan_passwd_uid [OF assms(6) this \<open>p0 \<noteq> u\<close> assms(3)] assms(3,4,5)
  show "lookupDockerUser etc (u @ CHR '':'' # g)
      = Returns (Some \<lparr>Username = p0, Uid = u, Gid = g, Name = p4, HomeDir = p5\<rparr>,
                 CloseErr (passwd etc))"
    by (simp add: lookupDockerUser_def Split_two [OF assms(1,2)])
next
  assume "p0 = u" and grp: "OpenErr (groupFile etc) = None"
    "list_all (\<lambda>l. index (Split l CHR '':'') 0 \<noteq> Some g) (Lines (groupFile etc))"
  with assms(7) have "Split line CHR '':'' = u # p1 # p2 # p3 # p4 # p5 # extra"
    by simp
  from scan_passwd_name [OF assms(6) this assms(3) grp] assms(3,4,5)
  show "lookupDockerUser etc (u @ CHR '':'' # g)
      = Returns (None, Some (ErrorString (''group '' @ g @ '' not found'')))"
    by (simp add: lookupDockerUser_def Split_two [OF assms(1,2)])
next
  assume "p0 = u" and grp: "OpenErr (groupFile etc) = None"
    "Lines (groupFile etc) = gpre @ gline # gpost"
    "list_all (\<lambda>l. index (Split l CHR '':'') 0 \<noteq> Some g) gpre"
    "Split gline CHR '':'' = g # q1 # q2 # gextra"
  with assms(7) have "Split line CHR '':'' = u # p1 # p2 # p3 # p4 # p5 # extra"
    by simp
  from scan_passwd_name_found [OF assms(6) this assms(3) grp] assms(3,4,5)
  show "lookupDockerUser etc (u @ CHR '':'' # g)
      = (case CloseErr (groupFile etc) of
           None \<Rightarrow>
             Returns (Some \<lparr>Username = u, Uid = p2, Gid = q2, Name = p4, HomeDir = p5\<rparr>,
                      CloseErr (passwd etc))
         | Some err \<Rightarrow> Returns (None, Some err))"
    by (simp add: lookupDockerUser_def Split_two [OF assms(1,2)] split: option.splits)
qed

theorem lookupDockerUser_group_witness:
  "lookupDockerUser example_etc ''1000:2000''
     = Returns (Some \<lparr>Username = ''alice'', Uid = ''1000'', Gid = ''2000'', Name = ''Alice'',
                      HomeDir = ''/home/alice''\<rparr>, None)
   \<and> lookupDockerUser example_etc ''alice:staff2''
     = Returns (None, Some (ErrorString ''group staff2 not found''))
   \<and> lookupDockerUser example_etc ''alice:staff''
     = Returns (Some \<lparr>Username = ''alice'', Uid = ''1000'', Gid = ''50'', Name = ''Alice'',
                      HomeDir = ''/home/alice''\<rparr>, None)"
proof -
  let ?root = "''root:x:0:0:root:/root:/bin/sh''"
  let ?alice = "''alice:x:1000:1000:Alice:/home/alice:/bin/sh''"
  have lines: "Lines (passwd example_etc) = [?root] @ ?alice # []"
    "OpenErr (passwd example_etc) = None" "CloseErr (passwd example_etc) = None"
    by (simp_all add: example_etc_def)
  have split: "Split ?alice CHR '':''
      = ''alice'' # ''x'' # ''1000'' # ''1000'' # ''Alice'' # ''/home/alice'' # [''/bin/sh'']"
    by simp
  have over: "list_all (passes_over ''1000'') [?root]" "list_all (passes_over ''alice'') [?root]"
    by (simp_all add: passes_over_def index_def)
  have grp: "OpenErr (groupFile example_etc) = None"
    "list_all (\<lambda>l. index (Split l CHR '':'') 0 \<noteq> Some ''staff2'') (Lines (groupFile example_etc))"
    by (simp_all add: example_etc_def index_def)
  have found: "Lines (groupFile example_etc) = [''root:x:0:''] @ ''staff:x:50:alice'' # []"
    "list_all (\<lambda>l. index (Split l CHR '':'') 0 \<noteq> Some ''staff'') [''root:x:0:'']"
    "Split ''staff:x:50:alice'' CHR '':'' = ''staff'' # ''x'' # ''50'' # [''alice'']"
    "CloseErr (groupFile example_etc) = None"
    by (simp_all add: example_etc_def index_def)
  have "lookupDockerUser example_etc (''1000'' @ CHR '':'' # ''2000'')
      = Returns (Some \<lparr>Username = ''alice'', Uid = ''1000'', Gid = ''2000'', Name = ''Alice'',
                      HomeDir = ''/home/alice''\<rparr>, None)"
    using lookupDockerUser_group [OF _ _ _ lines(2) lines(1) over(1) split, of "''2000''"]
      lines(3) by simp
  moreover have "lookupDockerUser example_etc (''alice'' @ CHR '':'' # ''staff2'')
      = Returns (None, Some (ErrorString (''group '' @ ''staff2'' @ '' not found'')))"
    using lookupDockerUser_group [OF _ _ _ lines(2) lines(1) over(2) split, of "''staff2''"]
      grp by simp
  moreover have "lookupDockerUser example_etc (''alice'' @ CHR '':'' # ''staff'')
      = Returns (Some \<lparr>Username = ''alice'', Uid = ''1000'', Gid = ''50'', Name = ''Alice'',
                      HomeDir = ''/home/alice''\<rparr>, None)"
    using lookupDockerUser_group [OF _ _ _ lines(2) lines(1) over(2) split,
        of "''staff''" "[''root:x:0:'']" "''staff:x:50:alice''" "[]" "''x''" "''50''" "[''alice'']"]
      grp(1) found lines(3) by simp
  ultimately show ?thesis
    by simp
qed

text \<open>The claim as stated fails for a user matched by name: the numeric group 2000 is
  looked up as a group name, and there is no such line in \<^verbatim>\<open>/etc/group\<close>.\<close>

theorem lookupDockerUser_name_match_counterexample:
  "lookupDockerUser example_etc ''alice:2000''
     = Returns (None, Some (ErrorString ''group 2000 not found''))"
  by (simp add: lookupDockerUser_def example_etc_def Let_def index_def matched_line_def
      lookupGroup_def)

subsection \<open>Unlinking\<close>

lemmas example_defs = example_driver_def example_transform_def example_os_def example_input_def
  empty_world_def example_world_def no_error_def by_root_def failing_pull_os_def
  unprivileged_os_def user_driver_def example_cb_def

lemmas WithData_defs = WithData_def stage_def downloadData_def make_out_def MkdirAll_def
  parents_def Join_def Errorf_def run_deferred_def run_callback_def puller_CleanUp_def
  keep_first_def RemoveAll_def linkData_def Symlink_at_def unlinkData_def ReadDir_def
  child_name_def under_def Walk_def Chown_def Let_def

lemma Join_two: "a \<noteq> [] \<Longrightarrow> b \<noteq> [] \<Longrightarrow> Join [a, b] = a @ ''/'' @ b"
  by (simp add: Join_def)

lemma Join_two_not_Nil: "a \<noteq> [] \<Longrightarrow> Join [a, b] \<noteq> []"
  by (simp add: Join_def)

lemma RemoveAll_None:
  "RemoveAll env p w = (None, w') \<Longrightarrow> p \<noteq> [] \<Longrightarrow>
     files w' = filter (\<lambda>(q, m). \<not> under p q) (files w)"
  by (auto simp: RemoveAll_def Let_def split: option.splits)

lemma unlink_entries_files:
  assumes "unlink_entries d env es w = (None, w')" and "inputDir d \<noteq> []"
  shows "files w' = filter (\<lambda>(q, m). \<forall>n\<in>set es. n \<noteq> PPSScratchSpace env
                        \<longrightarrow> \<not> under (Join [inputDir d, n]) q) (files w)"
  using assms(1)
proof (induction es arbitrary: w)
  case Nil
  then show ?case by simp
next
  case (Cons e es)
  show ?case
  proof (cases "e = PPSScratchSpace env")
    case True
    with Cons show ?thesis by simp
  next
    case False
    with Cons.prems obtain w1 where
      r: "RemoveAll env (Join [inputDir d, e]) w = (None, w1)" and
      u: "unlink_entries d env es w1 = (None, w')"
      by (auto split: prod.splits option.splits)
    have "files w1 = filter (\<lambda>(q, m). \<not> under (Join [inputDir d, e]) q) (files w)"
      using RemoveAll_None [OF r] Join_two_not_Nil [OF assms(2)] by simp
    with Cons.IH [OF u] False show ?thesis
      by (auto intro!: filter_cong)
  qed
qed

lemma child_name_SomeD:
  "child_name dir q = Some k \<Longrightarrow> q = dir @ ''/'' @ k \<and> k \<noteq> [] \<and> CHR ''/'' \<notin> set k"
  by (auto simp: child_name_def Let_def prefix_def split: if_splits)

lemma under_child:
  assumes "CHR ''/'' \<notin> set k"
  shows "under (dir @ ''/'' @ n) (dir @ ''/'' @ k) \<longleftrightarrow> k = n"
proof
  assume "under (dir @ ''/'' @ n) (dir @ ''/'' @ k)"
  then consider "k = n" | "prefix (n @ ''/'') k"
    by (auto simp: under_def)
  then show "k = n"
  proof cases
    case 2
    then have "CHR ''/'' \<in> set k" by (auto simp: prefix_def)
    with assms show ?thesis by simp
  qed
next
  assume "k = n" then show "under (dir @ ''/'' @ n) (dir @ ''/'' @ k)"
    by (simp add: under_def)
qed

lemma map_filter_filter_children:
  assumes "\<And>q m k. (q, m) \<in> set fs \<Longrightarrow> child_name dir q = Some k \<Longrightarrow> F (q, m) \<longleftrightarrow> k = s"
  shows "List.map_filter (child_name dir) (map fst (filter F fs))
       = filter (\<lambda>n. n = s) (List.map_filter (child_name dir) (map fst fs))"
  using assms
proof (induction fs)
  case Nil
  then show ?case by simp
next
  case (Cons x fs)
  obtain q m where x: "x = (q, m)" by (cases x)
  have IH: "List.map_filter (child_name dir) (map fst (filter F fs))
       = filter (\<lambda>n. n = s) (List.map_filter (child_name dir) (map fst fs))"
    using Cons by auto
  show ?case
  proof (cases "child_name dir q")
    case None
    then show ?thesis using IH by (simp add: x)
  next
    case (Some k)
    with Cons.prems [of q m k] have "F (q, m) \<longleftrightarrow> k = s" by (simp add: x)
    with Some IH show ?thesis by (auto simp add: x)
  qed
qed


lemma under_inputDir_entry:
  assumes "under (dir @ ''/'' @ n) q"
  shows "under dir q" and "q \<noteq> dir"
  using assms by (auto simp: under_def prefix_def)

lemma first_component:
  assumes "CHR ''/'' \<notin> set a" and "r = [] \<or> hd r = CHR ''/''"
  shows "takeWhile (\<lambda>c. c \<noteq> CHR ''/'') (a @ r) = a"
proof -
  have "takeWhile (\<lambda>c. c \<noteq> CHR ''/'') r = []"
    using assms(2) by (cases r) auto
  moreover have "takeWhile (\<lambda>c. c \<noteq> CHR ''/'') (a @ r) = a @ takeWhile (\<lambda>c. c \<noteq> CHR ''/'') r"
    using assms(1) by (intro takeWhile_append2) auto
  ultimately show ?thesis
    by simp
qed

lemma under_decompose:
  "under p q \<Longrightarrow> \<exists>r. q = p @ r \<and> (r = [] \<or> hd r = CHR ''/'')"
  by (auto simp: under_def prefix_def)

lemma under_two_entries:
  assumes "under (dir @ ''/'' @ a) q" and "under (dir @ ''/'' @ b) q"
    and "CHR ''/'' \<notin> set a" and "CHR ''/'' \<notin> set b"
  shows "a = b"
proof -
  from under_decompose [OF assms(1)] obtain r where
    r: "q = (dir @ ''/'' @ a) @ r" "r = [] \<or> hd r = CHR ''/''" by blast
  from under_decompose [OF assms(2)] obtain r' where
    r': "q = (dir @ ''/'' @ b) @ r'" "r' = [] \<or> hd r' = CHR ''/''" by blast
  from r(1) r'(1) have "a @ r = b @ r'" by simp
  then have "takeWhile (\<lambda>c. c \<noteq> CHR ''/'') (a @ r) = takeWhile (\<lambda>c. c \<noteq> CHR ''/'') (b @ r')"
    by simp
  then show ?thesis
    using first_component [OF assms(3) r(2)] first_component [OF assms(4) r'(2)] by simp
qed

lemma set_map_filter: "set (List.map_filter f xs) = {y. \<exists>x\<in>set xs. f x = Some y}"
  by (induction xs) (auto split: option.splits)

text \<open>
  C9. When \<^verbatim>\<open>unlinkData\<close> returns nil (the scratch-space name being a file name), the
  entries left in the input directory are exactly the entries named as the scratch space:
  every other entry is removed with all below it, whether or not the input list names it
  (the result does not depend on the list). The scratch space and all below it, the input
  directory itself and every path outside it are left as they were.
\<close>

theorem unlinkData_effect:
  assumes "fst (unlinkData d env inputs w) = None"
    and "PPSScratchSpace env \<noteq> []" and "CHR ''/'' \<notin> set (PPSScratchSpace env)"
  shows "\<exists>entries.
      ReadDir env (inputDir d) w = Inr entries
    \<and> files (snd (unlinkData d env inputs w))
        = filter (\<lambda>(q, m). \<forall>n\<in>set entries. n \<noteq> PPSScratchSpace env
                    \<longrightarrow> \<not> under (Join [inputDir d, n]) q) (files w)
    \<and> ReadDir env (inputDir d) (snd (unlinkData d env inputs w))
        = Inr (filter (\<lambda>n. n = PPSScratchSpace env) entries)
    \<and> (\<forall>x\<in>set (files w).
          under (Join [inputDir d, PPSScratchSpace env]) (fst x) \<or> \<not> under (inputDir d) (fst x)
            \<or> fst x = inputDir d
          \<longrightarrow> x \<in> set (files (snd (unlinkData d env inputs w))))
    \<and> unlinkData d env inputs w = unlinkData d env other w"
proof -
  let ?dir = "inputDir d" and ?s = "PPSScratchSpace env"
  let ?w' = "snd (unlinkData d env inputs w)"
  from assms(1) obtain entries where
    rd: "ReadDir env ?dir w = Inr entries" and
    ul: "unlink_entries d env entries w = (None, ?w')"
    by (cases "ReadDir env ?dir w"; cases "unlink_entries d env (projr (ReadDir env ?dir w)) w")
      (auto simp: unlinkData_def)
  from rd have dir: "?dir \<noteq> []" and rde: "ReadDirErr env ?dir = None"
    and entries: "entries = sort (List.map_filter (child_name ?dir) (map fst (files w)))"
    by (auto simp: ReadDir_def split: if_splits option.splits)
  let ?F = "\<lambda>(q, m). \<forall>n\<in>set entries. n \<noteq> ?s \<longrightarrow> \<not> under (Join [?dir, n]) q"
  have fs: "files ?w' = filter ?F (files w)"
    by (rule unlink_entries_files [OF ul dir])
  have entryD: "n \<noteq> [] \<and> CHR ''/'' \<notin> set n \<and> Join [?dir, n] = ?dir @ ''/'' @ n"
    if "n \<in> set entries" for n
  proof -
    from that obtain q where "child_name ?dir q = Some n"
      by (auto simp: entries set_map_filter)
    from child_name_SomeD [OF this] show ?thesis
      using dir by (simp add: Join_two)
  qed
  have keep: "?F (q, m) \<longleftrightarrow> k = ?s" if "(q, m) \<in> set (files w)" "child_name ?dir q = Some k" for q m k
  proof -
    from child_name_SomeD [OF that(2)] have q: "q = ?dir @ ''/'' @ k" and k: "CHR ''/'' \<notin> set k"
      by simp_all
    have kin: "k \<in> set entries"
      using that by (force simp: entries set_map_filter)
    have "?F (q, m) \<longleftrightarrow> (\<forall>n\<in>set entries. n \<noteq> ?s \<longrightarrow> k \<noteq> n)"
      using entryD under_child [OF k, of ?dir] by (simp add: q)
    with kin show ?thesis by auto
  qed
  have "List.map_filter (child_name ?dir) (map fst (files ?w'))
      = filter (\<lambda>n. n = ?s) (List.map_filter (child_name ?dir) (map fst (files w)))"
    unfolding fs by (rule map_filter_filter_children) (rule keep)
  then have rd': "ReadDir env ?dir ?w' = Inr (filter (\<lambda>n. n = ?s) entries)"
    using dir rde by (simp add: ReadDir_def entries filter_sort)
  have frame: "x \<in> set (files ?w')"
    if x: "x \<in> set (files w)"
      and c: "under (Join [?dir, ?s]) (fst x) \<or> \<not> under ?dir (fst x) \<or> fst x = ?dir" for x
  proof -
    have "\<not> under (Join [?dir, n]) (fst x)" if n: "n \<in> set entries" "n \<noteq> ?s" for n
    proof
      assume u: "under (Join [?dir, n]) (fst x)"
      then have u': "under (?dir @ ''/'' @ n) (fst x)"
        using entryD [OF n(1)] by simp
      from c show False
      proof (elim disjE)
        assume "under (Join [?dir, ?s]) (fst x)"
        then have "under (?dir @ ''/'' @ ?s) (fst x)"
          using dir assms(2) by (simp add: Join_two)
        from under_two_entries [OF u' this] entryD [OF n(1)] assms(3) n(2) show False
          by simp
      next
        assume "\<not> under ?dir (fst x)"
        with under_inputDir_entry(1) [OF u'] show False by simp
      next
        assume "fst x = ?dir"
        with under_inputDir_entry(2) [OF u'] show False by simp
      qed
    qed
    with x show ?thesis
      by (cases x) (auto simp: fs)
  qed
  have "unlinkData d env inputs w = unlinkData d env other w"
    by (simp add: unlinkData_def)
  with rd fs rd' frame show ?thesis
    by blast
qed

theorem unlinkData_effect_witness:
  "fst (unlinkData example_driver example_os [example_input] example_world) = None
   \<and> ReadDir example_os ''/pfs'' example_world = Inr [''.scratch'', ''in'', ''out'', ''stale'']
   \<and> ReadDir example_os ''/pfs'' (snd (unlinkData example_driver example_os [example_input] example_world))
       = Inr [''.scratch'']"
proof -
  have nil: "fst (unlinkData example_driver example_os [example_input] example_world) = None"
    by (simp add: WithData_defs example_defs)
  have name: "PPSScratchSpace example_os \<noteq> []" "CHR ''/'' \<notin> set (PPSScratchSpace example_os)"
    by (simp_all add: example_os_def)
  have before: "ReadDir example_os (inputDir example_driver) example_world
      = Inr [''.scratch'', ''in'', ''out'', ''stale'']"
    by (simp add: WithData_defs example_defs)
  from unlinkData_effect [OF nil name] obtain entries where
    e: "ReadDir example_os (inputDir example_driver) example_world = Inr entries" and
    after: "ReadDir example_os (inputDir example_driver)
       (snd (unlinkData example_driver example_os [example_input] example_world))
     = Inr (filter (\<lambda>n. n = PPSScratchSpace example_os) entries)"
    by blast
  from e before have "entries = [''.scratch'', ''in'', ''out'', ''stale'']"
    by simp
  moreover have "PPSScratchSpace example_os = ''.scratch''"
    by (simp add: example_os_def)
  ultimately have "ReadDir example_os (inputDir example_driver)
       (snd (unlinkData example_driver example_os [example_input] example_world))
     = Inr [''.scratch'']"
    using after by simp
  with nil before show ?thesis
    by (simp add: example_driver_def)
qed

subsection \<open>The order of the clean-up and the scratch directory\<close>

lemma RemoveAll_calls: "RemoveAll env p w = (e, w') \<Longrightarrow> calls w' = calls w @ [OsRemoveAll p]"
  by (auto simp: RemoveAll_def Let_def split: option.splits if_splits)

lemma RemoveAll_files:
  "RemoveAll env p w = (e, w') \<Longrightarrow> p \<noteq> [] \<Longrightarrow> RemoveAllErr env p = None \<Longrightarrow>
     files w' = filter (\<lambda>(q, m). \<not> under p q) (files w)"
  by (auto simp: RemoveAll_def Let_def)

text \<open>The first deferred function, as \<open>run_deferred\<close> has it.\<close>

lemma deferred_unlink_cases:
  obtains e1 w1 where
    "(if linked then
        (case unlinkData d env data w of
           (Some err, w') \<Rightarrow> (keep_first retErr (Some (Errorf ''error unlinkData: '' err)), w')
         | (None, w') \<Rightarrow> (retErr, w'))
      else (retErr, w)) = (e1, w1)"
  by (cases "(if linked then
        (case unlinkData d env data w of
           (Some err, w') \<Rightarrow> (keep_first retErr (Some (Errorf ''error unlinkData: '' err)), w')
         | (None, w') \<Rightarrow> (retErr, w'))
      else (retErr, w))")

lemma run_deferred_calls:
  "\<exists>pre. calls (snd (run_deferred d env data dir linked retErr w))
     = pre @ [PullerCleanUp, OsRemoveAll dir]"
proof -
  obtain e1 w1 where 1: "(if linked then
        (case unlinkData d env data w of
           (Some err, w') \<Rightarrow> (keep_first retErr (Some (Errorf ''error unlinkData: '' err)), w')
         | (None, w') \<Rightarrow> (retErr, w'))
      else (retErr, w)) = (e1, w1)"
    by (rule deferred_unlink_cases)
  show ?thesis
    unfolding run_deferred_def 1 Let_def
    by (auto simp: puller_CleanUp_def split: prod.splits dest!: RemoveAll_calls)
qed

lemma run_deferred_files:
  assumes "dir \<noteq> []" and "RemoveAllErr env dir = None"
  shows "list_all (\<lambda>(q, m). \<not> under dir q)
           (files (snd (run_deferred d env data dir linked retErr w)))"
proof -
  obtain e1 w1 where 1: "(if linked then
        (case unlinkData d env data w of
           (Some err, w') \<Rightarrow> (keep_first retErr (Some (Errorf ''error unlinkData: '' err)), w')
         | (None, w') \<Rightarrow> (retErr, w'))
      else (retErr, w)) = (e1, w1)"
    by (rule deferred_unlink_cases)
  show ?thesis
    unfolding run_deferred_def 1 Let_def
    by (auto simp: puller_CleanUp_def list_all_iff split: prod.splits
        dest!: RemoveAll_files [OF _ assms])
qed

lemma WithData_unfold:
  obtains staged dir linked w retStats retErr w' where
    "stage d env data w0 = (staged, dir, linked, w)"
    "dir = fst (downloadData d env data w0)"
    "WithData d env data cb w0
       = (retStats, run_deferred d env data dir linked retErr w')"
proof -
  obtain staged dir linked w where s: "stage d env data w0 = (staged, dir, linked, w)"
    by (cases "stage d env data w0")
  obtain retStats retErr w' where b:
    "(case staged of Some err \<Rightarrow> (None, Some err, w) | None \<Rightarrow> run_callback env cb w)
       = (retStats, retErr, w')"
    by (cases "(case staged of Some err \<Rightarrow> (None, Some err, w) | None \<Rightarrow> run_callback env cb w)")
  have "dir = fst (downloadData d env data w0)"
    using s by (auto simp: stage_def split: prod.splits option.splits)
  moreover have "WithData d env data cb w0
       = (retStats, run_deferred d env data dir linked retErr w')"
    by (simp add: WithData_def s b split: prod.splits)
  ultimately show ?thesis
    using s that by blast
qed

text \<open>Whatever happens, the last two calls of \<^verbatim>\<open>WithData\<close> are \<^verbatim>\<open>puller.CleanUp\<close> and then
  \<^verbatim>\<open>os.RemoveAll(dir)\<close>, \<open>dir\<close> being what \<^verbatim>\<open>downloadData\<close> returned.\<close>

lemma WithData_calls_order:
  "\<exists>pre. calls (snd (snd (WithData d env data cb w0)))
     = pre @ [PullerCleanUp, OsRemoveAll (fst (downloadData d env data w0))]"
proof -
  obtain dir linked retStats retErr w' where
    "dir = fst (downloadData d env data w0)"
    "WithData d env data cb w0 = (retStats, run_deferred d env data dir linked retErr w')"
    by (rule WithData_unfold)
  with run_deferred_calls [of d env data dir linked retErr w'] show ?thesis
    by simp
qed

text \<open>When \<^verbatim>\<open>downloadData\<close> succeeds and the removal of the scratch path does not fail,
  nothing at or below the scratch path is left when \<^verbatim>\<open>WithData\<close> returns.\<close>

lemma WithData_scratch_removed:
  assumes "fst (snd (downloadData d env data w0)) = None"
    and "inputDir d \<noteq> []"
    and "RemoveAllErr env (Join [inputDir d, PPSScratchSpace env, NewWithoutDashes env]) = None"
  shows "list_all (\<lambda>(q, m). \<not> under (Join [inputDir d, PPSScratchSpace env, NewWithoutDashes env]) q)
           (files (snd (snd (WithData d env data cb w0))))"
proof -
  let ?scratch = "Join [inputDir d, PPSScratchSpace env, NewWithoutDashes env]"
  obtain dir linked retStats retErr w' where
    "dir = fst (downloadData d env data w0)" and
    wd: "WithData d env data cb w0 = (retStats, run_deferred d env data dir linked retErr w')"
    by (rule WithData_unfold)
  moreover have "fst (downloadData d env data w0) = ?scratch"
    using assms(1) by (simp add: downloadData_def Let_def split: prod.splits option.splits)
  ultimately have dir: "dir = ?scratch"
    by simp
  have "?scratch \<noteq> []"
    using assms(2) by (auto simp: Join_def split: list.splits)
  from run_deferred_files [OF this assms(3), of d data linked retErr w'] show ?thesis
    by (simp add: wd dir)
qed

text \<open>
  C2. The order holds (\<open>WithData_calls_order\<close>), but the scratch path can outlive
  \<^verbatim>\<open>WithData\<close>: when \<^verbatim>\<open>puller.Pull\<close> fails, \<^verbatim>\<open>downloadData\<close> has already made the scratch
  directory and returns the empty path, so the deferred \<^verbatim>\<open>os.RemoveAll("")\<close> removes
  nothing. Here \<open>/pfs/.scratch/abc\<close> and its \<open>out\<close> are still there on return.
\<close>

theorem WithData_scratch_left_behind:
  "WithData example_driver failing_pull_os [example_input] example_cb empty_world
     = (None, Some (ErrorString ''error downloadData: pull failed''),
        \<lparr>files = [(''/pfs'', by_root Directory), (''/pfs/.scratch'', by_root Directory),
                  (''/pfs/.scratch/abc'', by_root Directory),
                  (''/pfs/.scratch/abc/out'', by_root Directory)],
         calls = [PullerCleanUp, OsRemoveAll []]\<rparr>)"
  by (simp add: WithData_defs example_defs)

subsection \<open>The owner of the inputs\<close>

lemma chown_walk_all:
  assumes "\<forall>p. ChownErr env p = None"
  shows "chown_walk env u g (map (\<lambda>q. (q, None)) names) w
       = (None, w\<lparr>files := map (hand_over (set names) u g) (files w)\<rparr>)"
proof (induction names arbitrary: w)
  case Nil
  then show ?case by (simp add: hand_over_def)
next
  case (Cons name names)
  have "Chown env name u g w
      = (None, w\<lparr>files := map (hand_over {name} u g) (files w)\<rparr>)"
    using assms by (simp add: Chown_def hand_over_def)
  moreover have "hand_over (set names) u g \<circ> hand_over {name} u g = hand_over (set (name # names)) u g"
    by (auto simp: hand_over_def fun_eq_iff)
  ultimately show ?case
    using Cons.IH by simp
qed

lemma parents_self: "p \<in> set (parents p)"
  by (simp add: parents_def)

lemma MkdirAll_makes:
  assumes "MkdirAll env p w = (None, w')"
  shows "map_of (files w') p \<noteq> None"
proof -
  let ?new = "[(q, \<lparr>kind = Directory, owner = procOwner env\<rparr>).
                 q \<leftarrow> parents p, map_of (files w) q = None]"
  from assms have fs: "files w' = files w @ ?new"
    by (auto simp: MkdirAll_def split: option.splits)
  have "p \<in> fst ` set (files w @ ?new)"
  proof (cases "map_of (files w) p")
    case None
    with parents_self [of p] have "(p, \<lparr>kind = Directory, owner = procOwner env\<rparr>) \<in> set ?new"
      by auto
    then show ?thesis by force
  next
    case (Some m)
    then have "(p, m) \<in> set (files w)" by (rule map_of_SomeD)
    then show ?thesis by force
  qed
  then show ?thesis
    unfolding fs by (simp only: map_of_eq_None_iff not_not)
qed

lemma Symlink_at_keeps:
  "Symlink_at env old new w = (None, w') \<Longrightarrow> map_of (files w) p \<noteq> None \<Longrightarrow> map_of (files w') p \<noteq> None"
  by (auto simp: Symlink_at_def split: option.splits)

lemma link_inputs_keeps:
  "link_inputs d env inputs dir w = (None, w') \<Longrightarrow> map_of (files w) p \<noteq> None
     \<Longrightarrow> map_of (files w') p \<noteq> None"
proof (induction inputs arbitrary: w)
  case Nil
  then show ?case by simp
next
  case (Cons input inputs)
  from Cons.prems(1) obtain w1 where
    1: "Symlink_at env (Join [dir, InputName input]) (Join [inputDir d, InputName input]) w = (None, w1)"
    and 2: "link_inputs d env inputs dir w1 = (None, w')"
    by (auto split: prod.splits option.splits)
  from Cons.IH [OF 2 Symlink_at_keeps [OF 1 Cons.prems(2)]] show ?case .
qed

lemma linkData_keeps:
  "linkData d env inputs dir w = (None, w') \<Longrightarrow> map_of (files w) p \<noteq> None
     \<Longrightarrow> map_of (files w') p \<noteq> None"
  by (auto simp: linkData_def split: prod.splits option.splits
      dest: link_inputs_keeps Symlink_at_keeps)

text \<open>When no \<^verbatim>\<open>Lstat\<close> and no \<^verbatim>\<open>Chown\<close> fails, the callback of \<^verbatim>\<open>WithData\<close> is called in a
  world where every path at or below the input directory belongs to the configured user
  and group.\<close>

lemma stage_hands_over:
  assumes "uid d = Some u" and "gid d = Some g"
    and "stage d env data w0 = (None, dir, linked, w)"
    and "\<forall>p. LstatErr env p = None" and "\<forall>p. ChownErr env p = None"
  shows "owned_by (u, g) (inputDir d) w"
proof -
  from assms(3) obtain w1 w2 w3 where
    mk: "MkdirAll env (inputDir d) w1 = (None, w2)" and
    ln: "linkData d env data dir w2 = (None, w3)" and
    w: "w = snd (chown_walk env u g (Walk env (inputDir d) w3) w3)"
    by (auto simp: stage_def assms(1,2) split: prod.splits option.splits)
  have root: "map_of (files w3) (inputDir d) \<noteq> None"
    using linkData_keeps [OF ln MkdirAll_makes [OF mk]] .
  let ?names = "sort_key (\<lambda>q. Split q CHR ''/'') (filter (under (inputDir d)) (map fst (files w3)))"
  have "Walk env (inputDir d) w3 = map (\<lambda>q. (q, None)) ?names"
    using root assms(4) by (auto simp: Walk_def)
  with chown_walk_all [OF assms(5), of u g ?names w3] have
    "files w = map (hand_over (set ?names) u g) (files w3)"
    by (simp add: w)
  then show ?thesis
    by (force simp: owned_by_def list_all_iff hand_over_def split: if_splits)
qed

text \<open>
  C5. With uid and gid 4000 configured and a system that refuses \<^verbatim>\<open>chown\<close>, the error of
  the walk is dropped and the callback is called all the same, in a world whose files
  under \<open>/pfs\<close> still belong to user and group 0: the callback that checks the owner fails.
  (With a \<^verbatim>\<open>chown\<close> that succeeds it passes, as \<open>stage_hands_over\<close> shows in general.)
\<close>

theorem WithData_callback_wrong_owner:
  "stage user_driver unprivileged_os [example_input] empty_world
     = (None, ''/pfs/.scratch/abc'', True,
        \<lparr>files = [(''/pfs'', by_root Directory), (''/pfs/.scratch'', by_root Directory),
                  (''/pfs/.scratch/abc'', by_root Directory),
                  (''/pfs/.scratch/abc/out'', by_root Directory),
                  (''/pfs/.scratch/abc/in/f'', by_root Regular),
                  (''/pfs/in'', by_root (Symlink ''/pfs/.scratch/abc/in'')),
                  (''/pfs/out'', by_root (Symlink ''/pfs/.scratch/abc/out''))],
         calls = []\<rparr>)
   \<and> fst (snd (WithData user_driver unprivileged_os [example_input]
              (ownership_probe (4000, 4000) ''/pfs'') empty_world))
       = Some (ErrorString ''wrong owner'')
   \<and> fst (snd (WithData user_driver example_os [example_input]
              (ownership_probe (4000, 4000) ''/pfs'') empty_world))
       = None"
  by (simp add: WithData_defs example_defs ownership_probe_def owned_by_def)

subsection \<open>The ranges of the uploaded files\<close>

lemmas upload_defs = UploadOutput_def start_state_def outputPath_def Join_def upload_entry_def
  upload_file_def tree_put_def IsDir_def ModeDir_def ModeNamedPipe_def ModeSymlink_def
  Errorf_def errSpecialFile_def EOF_def Let_def

lemmas upload_example_defs = example_upload_def example_upload_pipe_def example_rel_def
  dir_entry_def file_entry_def pipe_entry_def no_stats_def example_driver_def

lemma send_chunks_size:
  "send_chunks env reads sz reqs bs = (None, sz', reqs', bs') \<Longrightarrow>
     sz' = sz + of_nat (read_size reads)
     \<and> (\<exists>chunks. reqs' = reqs @ map ValueRequest chunks \<and> length (concat chunks) = read_size reads)"
proof (induction reads arbitrary: sz reqs bs)
  case Nil
  then show ?case by simp
next
  case (Cons r reads)
  obtain chunk err where r: "r = (chunk, err)" by (cases r)
  show ?case
  proof (cases "length chunk = 0 \<and> err \<noteq> None")
    case True
    with Cons.prems show ?thesis
      by (auto simp: r split: if_splits)
  next
    case False
    with Cons.prems have
      rec: "send_chunks env reads (sz + of_nat (length chunk)) (reqs @ [ValueRequest chunk]) (bs @ chunk)
         = (None, sz', reqs', bs')"
      by (auto simp: r split: option.splits if_splits)
    from Cons.IH [OF rec] obtain chunks where
      "sz' = sz + of_nat (length chunk) + of_nat (read_size reads)"
      "reqs' = (reqs @ [ValueRequest chunk]) @ map ValueRequest chunks"
      "length (concat chunks) = read_size reads"
      by blast
    with False show ?thesis
      unfolding r by (auto intro!: exI [of _ "chunk # chunks"])
  qed
qed

lemma streamed_append:
  "streamed env reqs n \<Longrightarrow> length (concat chunks) = m \<Longrightarrow>
     streamed env (reqs @ map ValueRequest chunks) (n + m)"
proof -
  have "blocks_of (reqs @ map ValueRequest chunks) = blocks_of reqs
      \<and> stream_bytes (reqs @ map ValueRequest chunks) = stream_bytes reqs @ concat chunks"
  proof (induction reqs rule: blocks_of.induct)
    case 1
    show ?case by (induction chunks) auto
  qed auto
  then show "streamed env reqs n \<Longrightarrow> length (concat chunks) = m \<Longrightarrow>
     streamed env (reqs @ map ValueRequest chunks) (n + m)"
    by (simp add: streamed_def)
qed

text \<open>What a successful upload of one file does to the state.\<close>

lemma upload_file_effect:
  assumes "upload_file env path relPath s = Returns (None, s')"
  shows "\<exists>t hash. tree s = Some t
     \<and> tree s' = Some (t @ [PutFile relPath hash (of_nat (file_size env path))
          \<lparr>BlockRefs = [\<lparr>Block = BlockHash env,
             Range = \<lparr>Lower = offset s, Upper = offset s + of_nat (file_size env path)\<rparr>\<rparr>]\<rparr>])
     \<and> offset s' = offset s + of_nat (file_size env path)
     \<and> UploadBytes (stats s') = UploadBytes (stats s) + of_nat (file_size env path)
     \<and> (\<forall>n. streamed env (sent s) n \<longrightarrow> streamed env (sent s') (n + file_size env path))"
proof -
  from assms obtain reads where op: "Open env path = Inr reads"
    by (auto simp: upload_file_def split: sum.splits)
  from assms op obtain sz reqs bs where
    sc: "send_chunks env reads 0 (sent s) [] = (None, sz, reqs, bs)"
    by (cases "send_chunks env reads 0 (sent s) []") (auto simp: upload_file_def split: option.splits)
  from send_chunks_size [OF sc] obtain chunks where
    sz: "sz = of_nat (read_size reads)" and
    reqs: "reqs = sent s @ map ValueRequest chunks" and
    len: "length (concat chunks) = read_size reads"
    by auto
  have fs: "file_size env path = read_size reads"
    by (simp add: file_size_def op)
  from assms obtain t where t: "tree s = Some t"
    by (cases "tree s") (auto simp: upload_file_def op sc tree_put_def Let_def)
  have "s' = s\<lparr>sent := reqs, tree := Some (t @ [PutFile relPath (NewHashSum env bs) sz
          \<lparr>BlockRefs = [\<lparr>Block = BlockHash env, Range = \<lparr>Lower = offset s, Upper = offset s + sz\<rparr>\<rparr>]\<rparr>]),
        statsTree := map_option (\<lambda>st. st @ [PutFile relPath (NewHashSum env bs) sz
          \<lparr>BlockRefs = [\<lparr>Block = BlockHash env, Range = \<lparr>Lower = offset s, Upper = offset s + sz\<rparr>\<rparr>]\<rparr>]) (statsTree s),
        offset := offset s + sz,
        stats := (stats s)\<lparr>UploadBytes := UploadBytes (stats s) + sz\<rparr>\<rparr>"
    using assms by (simp add: upload_file_def op sc tree_put_def Let_def t)
  then show ?thesis
    using t streamed_append [OF _ len, of env "sent s"]
    by (simp add: sz fs reqs)
qed

lemma tree_put_keeps:
  "tree_put op s = Returns (r, s') \<Longrightarrow>
     offset s' = offset s \<and> stats s' = stats s \<and> sent s' = sent s"
  by (auto simp: tree_put_def split: option.splits)

lemma link_entry_keeps:
  "link_entry env relPath realPath input s info = Returns (r, s') \<Longrightarrow>
     offset s' = offset s \<and> stats s' = stats s \<and> sent s' = sent s"
  by (auto simp: link_entry_def Let_def split: option.splits sum.splits if_splits
      dest: tree_put_keeps)

lemma link_walk_keeps:
  "link_walk env relPath realPath input entries s = Returns (r, s') \<Longrightarrow>
     offset s' = offset s \<and> stats s' = stats s \<and> sent s' = sent s"
proof (induction entries arbitrary: s)
  case Nil
  then show ?case by simp
next
  case (Cons info entries)
  show ?case
  proof (cases "link_entry env relPath realPath input s info")
    case (Returns p)
    obtain e s1 where p: "p = (e, s1)" by (cases p)
    show ?thesis
    proof (cases e)
      case None
      with Cons.prems Returns p have "link_walk env relPath realPath input entries s1 = Returns (r, s')"
        by simp
      from Cons.IH [OF this] link_entry_keeps [of env relPath realPath input s info e s1]
      show ?thesis using Returns p by simp
    next
      case (Some err)
      with Cons.prems Returns p have "s' = s1" by simp
      with link_entry_keeps [of env relPath realPath input s info e s1] Returns p
      show ?thesis by simp
    qed
  next
    case (Panics m)
    with Cons.prems show ?thesis by simp
  next
    case (Fatal err)
    with Cons.prems show ?thesis by simp
  qed
qed


text \<open>An entry that the walk's function accepts is either uploaded as a file, or leaves
  the offset, the stats and the stream alone.\<close>

lemma upload_entry_cases:
  assumes "upload_entry d env inputs s info = Returns (None, s')"
  shows "(uploaded d env inputs info
            \<and> (\<exists>relPath. Rel env (outputPath d) (filePath info) = Inr relPath
                  \<and> upload_file env (filePath info) relPath s = Returns (None, s')))
       \<or> (\<not> uploaded d env inputs info
            \<and> offset s' = offset s \<and> stats s' = stats s \<and> sent s' = sent s)"
proof (cases "uploaded d env inputs info")
  case True
  then obtain relPath where
    rel: "Rel env (outputPath d) (filePath info) = Inr relPath" and
    u: "walkErr info = None" "ValidString env (filePath info)" "filePath info \<noteq> outputPath d"
       "\<not> IsDir info" "\<not> (mode info AND ModeNamedPipe) > 0"
       "(mode info AND ModeSymlink) > 0
          \<longrightarrow> symlink_target d env inputs (filePath info) relPath = Inr None"
    by (auto simp: uploaded_def split: sum.splits)
  from assms have "upload_file env (filePath info) relPath s = Returns (None, s')"
    using rel u by (simp add: upload_entry_def split: if_splits)
  with True rel show ?thesis by blast
next
  case False
  have keep: "offset s' = offset s \<and> stats s' = stats s \<and> sent s' = sent s"
  proof (cases "filePath info = outputPath d")
    case True
    with assms show ?thesis
      by (auto simp: upload_entry_def split: option.splits if_splits)
  next
    case notroot: False
    from assms have ok: "walkErr info = None" "ValidString env (filePath info)"
      by (auto simp: upload_entry_def split: option.splits if_splits)
    from assms ok notroot obtain relPath where
      rel: "Rel env (outputPath d) (filePath info) = Inr relPath"
      by (cases "Rel env (outputPath d) (filePath info)") (auto simp: upload_entry_def)
    show ?thesis
    proof (cases "IsDir info")
      case True
      with assms ok notroot rel show ?thesis
        by (auto simp: upload_entry_def dest: tree_put_keeps)
    next
      case nodir: False
      from assms ok notroot rel nodir have nopipe: "\<not> (mode info AND ModeNamedPipe) > 0"
        by (auto simp: upload_entry_def split: if_splits)
      from False ok notroot rel nodir nopipe have
        link: "(mode info AND ModeSymlink) > 0"
        and target: "symlink_target d env inputs (filePath info) relPath \<noteq> Inr None"
        by (auto simp: uploaded_def)
      from assms ok notroot rel nodir nopipe link target obtain realPath input where
        "link_walk env relPath realPath input (Visits env realPath) s = Returns (None, s')"
        by (auto simp: upload_entry_def split: sum.splits option.splits)
      from link_walk_keeps [OF this] show ?thesis .
    qed
  qed
  with False show ?thesis by simp
qed

lemma uploaded_bytes_Cons:
  "uploaded_bytes d env inputs (info # entries)
     = (if uploaded d env inputs info then file_size env (filePath info) else 0)
       + uploaded_bytes d env inputs entries"
  by (simp add: uploaded_bytes_def)

lemma uploaded_bytes_append:
  "uploaded_bytes d env inputs (xs @ ys)
     = uploaded_bytes d env inputs xs + uploaded_bytes d env inputs ys"
  by (simp add: uploaded_bytes_def)

lemma upload_entry_effect:
  assumes "upload_entry d env inputs s info = Returns (None, s')"
  shows "offset s' = offset s + of_nat (uploaded_bytes d env inputs [info])
     \<and> UploadBytes (stats s') = UploadBytes (stats s) + of_nat (uploaded_bytes d env inputs [info])
     \<and> (\<forall>n. streamed env (sent s) n
            \<longrightarrow> streamed env (sent s') (n + uploaded_bytes d env inputs [info]))"
  using upload_entry_cases [OF assms]
proof (elim disjE conjE exE)
  fix relPath
  assume "uploaded d env inputs info"
    and "upload_file env (filePath info) relPath s = Returns (None, s')"
  with upload_file_effect [of env "filePath info" relPath s s'] show ?thesis
    by (auto simp: uploaded_bytes_def)
next
  assume "\<not> uploaded d env inputs info" "offset s' = offset s" "stats s' = stats s"
    "sent s' = sent s"
  then show ?thesis
    by (simp add: uploaded_bytes_def)
qed

text \<open>After a walk without error, the offset and the uploaded bytes of the stats have both
  grown by the bytes of the uploaded files, and so has the stream.\<close>

lemma walk_output_effect:
  "walk_output d env inputs entries s = Returns (None, s') \<Longrightarrow>
     offset s' = offset s + of_nat (uploaded_bytes d env inputs entries)
     \<and> UploadBytes (stats s') = UploadBytes (stats s) + of_nat (uploaded_bytes d env inputs entries)
     \<and> (\<forall>n. streamed env (sent s) n
            \<longrightarrow> streamed env (sent s') (n + uploaded_bytes d env inputs entries))"
proof (induction entries arbitrary: s)
  case Nil
  then show ?case by (simp add: uploaded_bytes_def)
next
  case (Cons info entries)
  from Cons.prems obtain s1 where
    first: "upload_entry d env inputs s info = Returns (None, s1)" and
    rest: "walk_output d env inputs entries s1 = Returns (None, s')"
    by (auto split: outcome.splits prod.splits option.splits)
  have split: "uploaded_bytes d env inputs (info # entries)
      = uploaded_bytes d env inputs [info] + uploaded_bytes d env inputs entries"
    using uploaded_bytes_append [of d env inputs "[info]" entries] by simp
  from upload_entry_effect [OF first] Cons.IH [OF rest] show ?case
    unfolding split by (auto simp flip: add.assoc)
qed



lemma streamed_start: "streamed env (sent (start_state env procStats st)) 0"
  by (simp add: streamed_def start_state_def)

text \<open>
  C1. Let the walk have passed the entries \<open>pre\<close> without error, and let its function then
  accept a regular file (no directory, pipe or symlink bit, not the root). Then exactly one
  put is added to the datum tree, a \<^verbatim>\<open>PutFile\<close> at the file's relative path whose node has
  exactly one block reference: the block is the fresh block of this upload, \<open>Lower\<close> is the
  number of bytes of the files uploaded before it, and \<open>Upper\<close> is \<open>Lower\<close> plus the size of
  the file (in \<^verbatim>\<open>uint64\<close>). The offset was \<open>Lower\<close> and becomes \<open>Upper\<close>, which is the \<open>Lower\<close>
  of the next uploaded file; \<^verbatim>\<open>stats.UploadBytes\<close> grows by the size; and the bytes sent to
  the one block opened on the stream are as many as the offset. Below \<open>2 ^ 64\<close> bytes in all
  nothing wraps, so the ranges of the uploaded files are disjoint and follow one another.
  The files uploaded include the symlinks that are read like files (those that do not
  point into a known input).
\<close>

theorem upload_file_range:
  assumes pre: "walk_output d env inputs pre (start_state env procStats st) = Returns (None, s)"
    and entry: "upload_entry d env inputs s info = Returns (None, s')"
    and regular: "\<not> IsDir info" "mode info AND ModeNamedPipe = 0" "mode info AND ModeSymlink = 0"
    and notroot: "filePath info \<noteq> outputPath d"
  shows "\<exists>relPath t hash.
      Rel env (outputPath d) (filePath info) = Inr relPath \<and> tree s = Some t
    \<and> tree s' = Some (t @ [PutFile relPath hash (of_nat (file_size env (filePath info)))
         \<lparr>BlockRefs = [\<lparr>Block = BlockHash env,
            Range = \<lparr>Lower = of_nat (uploaded_bytes d env inputs pre),
                     Upper = of_nat (uploaded_bytes d env inputs pre)
                               + of_nat (file_size env (filePath info))\<rparr>\<rparr>]\<rparr>])
    \<and> offset s = of_nat (uploaded_bytes d env inputs pre)
    \<and> offset s' = of_nat (uploaded_bytes d env inputs (pre @ [info]))
    \<and> uploaded_bytes d env inputs (pre @ [info])
         = uploaded_bytes d env inputs pre + file_size env (filePath info)
    \<and> UploadBytes (stats s) = UploadBytes procStats + of_nat (uploaded_bytes d env inputs pre)
    \<and> UploadBytes (stats s') = UploadBytes (stats s) + of_nat (file_size env (filePath info))
    \<and> streamed env (sent s) (uploaded_bytes d env inputs pre)
    \<and> streamed env (sent s') (uploaded_bytes d env inputs (pre @ [info]))
    \<and> (uploaded_bytes d env inputs (pre @ [info]) < 2 ^ 64 \<longrightarrow>
         unat (of_nat (uploaded_bytes d env inputs pre) :: uint64)
           = uploaded_bytes d env inputs pre
       \<and> unat (of_nat (uploaded_bytes d env inputs pre)
                 + of_nat (file_size env (filePath info)) :: uint64)
           = uploaded_bytes d env inputs pre + file_size env (filePath info))"
proof -
  let ?before = "uploaded_bytes d env inputs pre" and ?size = "file_size env (filePath info)"
  from walk_output_effect [OF pre] streamed_start [of env procStats st] have
    off: "offset s = of_nat ?before" and
    up: "UploadBytes (stats s) = UploadBytes procStats + of_nat ?before" and
    str: "streamed env (sent s) ?before"
    by (auto simp: start_state_def)
  have ok: "walkErr info = None" "ValidString env (filePath info)"
    using entry by (auto simp: upload_entry_def split: option.splits if_splits)
  from entry ok notroot obtain relPath where
    rel: "Rel env (outputPath d) (filePath info) = Inr relPath"
    by (cases "Rel env (outputPath d) (filePath info)") (auto simp: upload_entry_def)
  have u: "uploaded d env inputs info"
    using ok notroot rel regular by (simp add: uploaded_def)
  have upl: "upload_file env (filePath info) relPath s = Returns (None, s')"
    using entry ok notroot rel regular by (simp add: upload_entry_def)
  from upload_file_effect [OF upl] obtain t hash where
    t: "tree s = Some t" and
    t': "tree s' = Some (t @ [PutFile relPath hash (of_nat ?size)
          \<lparr>BlockRefs = [\<lparr>Block = BlockHash env,
             Range = \<lparr>Lower = offset s, Upper = offset s + of_nat ?size\<rparr>\<rparr>]\<rparr>])" and
    off': "offset s' = offset s + of_nat ?size" and
    up': "UploadBytes (stats s') = UploadBytes (stats s) + of_nat ?size" and
    str': "\<forall>n. streamed env (sent s) n \<longrightarrow> streamed env (sent s') (n + ?size)"
    by blast
  have sum: "uploaded_bytes d env inputs (pre @ [info]) = ?before + ?size"
    using u by (simp add: uploaded_bytes_def)
  have nowrap: "unat (of_nat ?before :: uint64) = ?before
      \<and> unat (of_nat ?before + of_nat ?size :: uint64) = ?before + ?size"
    if "uploaded_bytes d env inputs (pre @ [info]) < 2 ^ 64"
  proof -
    from that sum have b: "?before + ?size < 2 ^ LENGTH(64)" by simp
    then have "?before < 2 ^ LENGTH(64)" by simp
    then have "unat (of_nat ?before :: uint64) = ?before"
      by (simp add: unat_of_nat)
    moreover have "unat (of_nat (?before + ?size) :: uint64) = ?before + ?size"
      using b by (simp only: unat_of_nat mod_less)
    ultimately show ?thesis by simp
  qed
  show ?thesis
    using rel t t' off off' sum up up' str str' nowrap
    by (intro exI [of _ relPath] exI [of _ t] exI [of _ hash]) simp
qed


theorem upload_file_range_witness:
  "\<exists>t hash. tree state_after_b
       = Some (t @ [PutFile ''d/b'' hash 1
           \<lparr>BlockRefs = [\<lparr>Block = ''block1'', Range = \<lparr>Lower = 5, Upper = 6\<rparr>\<rparr>]\<rparr>])
     \<and> offset state_before_b = 5 \<and> offset state_after_b = 6
     \<and> UploadBytes (stats state_after_b) = UploadBytes (stats state_before_b) + 1
     \<and> streamed example_upload (sent state_after_b) 6"
proof -
  let ?pre = "[dir_entry ''/pfs/out'', file_entry ''/pfs/out/a'', dir_entry ''/pfs/out/d'']"
  let ?info = "file_entry ''/pfs/out/d/b''"
  have pre: "walk_output example_driver example_upload [] ?pre
      (start_state example_upload no_stats None) = Returns (None, state_before_b)"
    by (simp add: upload_defs upload_example_defs state_before_b_def node_at_def)
  have entry: "upload_entry example_driver example_upload [] state_before_b ?info
      = Returns (None, state_after_b)"
    by (simp add: upload_defs upload_example_defs state_before_b_def state_after_b_def node_at_def)
  have regular: "\<not> IsDir ?info" "mode ?info AND ModeNamedPipe = 0" "mode ?info AND ModeSymlink = 0"
    by (simp_all add: upload_defs upload_example_defs)
  have notroot: "filePath ?info \<noteq> outputPath example_driver"
    by (simp add: upload_defs upload_example_defs)
  have before: "uploaded_bytes example_driver example_upload [] ?pre = 5"
    by (simp add: uploaded_bytes_def uploaded_def file_size_def upload_defs upload_example_defs)
  have size: "file_size example_upload (filePath ?info) = 1"
    by (simp add: file_size_def upload_defs upload_example_defs)
  have rel: "Rel example_upload (outputPath example_driver) (filePath ?info) = Inr ''d/b''"
    by (simp add: upload_defs upload_example_defs)
  have block: "BlockHash example_upload = ''block1''"
    by (simp add: example_upload_def)
  from upload_file_range [OF pre entry regular notroot] show ?thesis
    unfolding before size rel block by auto
qed

text \<open>No call for the tagged object is made unless the walk has ended without error.\<close>

lemma UploadOutput_object_calls:
  assumes "UploadOutput d env tag inputs procStats st = Returns (b, err, s, object_calls)"
    and "object_calls \<noteq> []"
  shows "walk_output d env inputs (Visits env (outputPath d)) (start_state env procStats st)
           = Returns (None, s)"
  using assms
  by (auto simp: UploadOutput_def Let_def
      split: option.splits outcome.splits prod.splits if_splits sum.splits)




end
